theory Spec2Isabelle
  imports Main "HOL-Library.Monad_Syntax"
begin

section \<open>Strings, digits and errors\<close>

text \<open>
  A Python \<open>str\<close> is a sequence of Unicode code points, and \<open>len\<close> counts code
  points.  The model therefore takes a string to be a list of code points; \<open>ascii\<close>
  embeds an ASCII literal.
\<close>

type_synonym pystr = "nat list"

definition ascii :: "string \<Rightarrow> pystr" where
  "ascii s = map of_char s"

text \<open>
  The exceptions of \<open>base.py\<close>: \<open>ValueError\<close> is raised by the field setters and by
  the date constructor, \<open>TypeError\<close> by \<open>list.pop\<close>, \<open>IndexError\<close> by \<open>list.pop\<close>
  on a bad index, and \<open>RecordAlreadyExistsException\<close> is the class of the repository.
  The message texts are not modelled.
\<close>

datatype error = ValueError | TypeError | IndexError | RecordAlreadyExistsException

text \<open>
  In a \<open>str\<close> pattern the class \<open>\d\<close> of module \<open>re\<close> matches every character of
  Unicode category Nd.  The table lists the Nd ranges (first code point, length) of
  Unicode 14.0; inside each range the digit values run 0..9 cyclically.
\<close>

definition unicode_Nd :: "(nat \<times> nat) list" where
  "unicode_Nd =
    [(48, 10), (1632, 10), (1776, 10), (1984, 10), (2406, 10), (2534, 10), (2662, 10),
     (2790, 10), (2918, 10), (3046, 10), (3174, 10), (3302, 10), (3430, 10), (3558, 10),
     (3664, 10), (3792, 10), (3872, 10), (4160, 10), (4240, 10), (6112, 10), (6160, 10),
     (6470, 10), (6608, 10), (6784, 10), (6800, 10), (6992, 10), (7088, 10), (7232, 10),
     (7248, 10), (42528, 10), (43216, 10), (43264, 10), (43472, 10), (43504, 10),
     (43600, 10), (44016, 10), (65296, 10), (66720, 10), (68912, 10), (69734, 10),
     (69872, 10), (69942, 10), (70096, 10), (70384, 10), (70736, 10), (70864, 10),
     (71248, 10), (71360, 10), (71472, 10), (71904, 10), (72016, 10), (72784, 10),
     (73040, 10), (73120, 10), (92768, 10), (92864, 10), (93008, 10), (120782, 50),
     (123200, 10), (123632, 10), (125264, 10), (130032, 10)]"

fun in_ranges :: "(nat \<times> nat) list \<Rightarrow> nat \<Rightarrow> bool" where
  "in_ranges [] c = False"
| "in_ranges ((a, n) # rs) c = ((a \<le> c \<and> c < a + n) \<or> in_ranges rs c)"

definition is_digit :: "nat \<Rightarrow> bool" where
  "is_digit c = in_ranges unicode_Nd c"

definition is_ascii_digit :: "nat \<Rightarrow> bool" where
  "is_ascii_digit c = (48 \<le> c \<and> c \<le> 57)"

section \<open>Fields\<close>

text \<open>
  Every field class writes \<open>self.__value\<close>, and Python mangles the name per class:
  \<open>Field.__init__\<close> and \<open>Field.__str__\<close> use the attribute \<open>_Field__value\<close>, the
  property of \<open>Phone\<close> uses \<open>_Phone__value\<close>, and so on.  An object therefore has two
  attributes, and the records below keep both.
\<close>

record Name =
  Name_value :: pystr
  Name_Field_value :: pystr

record Phone =
  Phone_value :: pystr
  Phone_Field_value :: pystr

subsection \<open>Name\<close>

text \<open>The setter of \<open>Name.value\<close> stores the argument as it is.\<close>

definition Name_set_value :: "pystr \<Rightarrow> pystr" where
  "Name_set_value client_name = client_name"

definition Name_init :: "pystr \<Rightarrow> Name" where
  "Name_init client_name =
     (let v = Name_set_value client_name
      in \<lparr>Name_value = v, Name_Field_value = v\<rparr>)"

definition Name_str :: "Name \<Rightarrow> pystr" where
  "Name_str n = Name_Field_value n"

subsection \<open>Phone\<close>

text \<open>
  \<open>re.search('\d+', phone)\<close>: the leftmost, longest run of digits, or no match.
\<close>

definition re_search_digits :: "pystr \<Rightarrow> pystr option" where
  "re_search_digits phone =
     (case dropWhile (\<lambda>c. \<not> is_digit c) phone of
        [] \<Rightarrow> None
      | t \<Rightarrow> Some (takeWhile is_digit t))"

text \<open>
  The setter of \<open>Phone.value\<close>: it returns the string to store in \<open>_Phone__value\<close>,
  or raises.
\<close>

definition Phone_set_value :: "pystr \<Rightarrow> error + pystr" where
  "Phone_set_value phone =
     (let numbers = (case re_search_digits phone of Some g \<Rightarrow> g | None \<Rightarrow> []);
          phone_number_len = length phone
      in if phone_number_len \<noteq> 10 \<or> length numbers \<noteq> phone_number_len
         then Inl ValueError
         else Inr phone)"

definition Phone_init :: "pystr \<Rightarrow> error + Phone" where
  "Phone_init phone =
     (case Phone_set_value phone of
        Inl e \<Rightarrow> Inl e
      | Inr v \<Rightarrow> Inr \<lparr>Phone_value = v, Phone_Field_value = v\<rparr>)"

text \<open>Assignment \<open>p.value = phone\<close> on an existing object: only \<open>_Phone__value\<close> changes.\<close>

definition Phone_assign :: "Phone \<Rightarrow> pystr \<Rightarrow> error + Phone" where
  "Phone_assign p phone =
     (case Phone_set_value phone of
        Inl e \<Rightarrow> Inl e
      | Inr v \<Rightarrow> Inr (p\<lparr>Phone_value := v\<rparr>))"

definition Phone_str :: "Phone \<Rightarrow> pystr" where
  "Phone_str p = Phone_Field_value p"

subsection \<open>Calendar dates\<close>

text \<open>
  \<open>datetime.date\<close> and \<open>datetime.datetime\<close> of the standard library, as far as the
  repository uses them: a date is a year, a month and a day that the constructor has
  checked; a datetime adds the time of day.
\<close>

record date =
  year :: nat
  month :: nat
  day :: nat

record datetime = date +
  hour :: nat
  minute :: nat
  second :: nat
  microsecond :: nat

definition is_leap :: "nat \<Rightarrow> bool" where
  "is_leap y = (y mod 4 = 0 \<and> (y mod 100 \<noteq> 0 \<or> y mod 400 = 0))"

definition DAYS_IN_MONTH :: "nat list" where
  "DAYS_IN_MONTH = [0, 31, 28, 31, 30, 31, 30, 31, 31, 30, 31, 30, 31]"

definition DAYS_BEFORE_MONTH :: "nat list" where
  "DAYS_BEFORE_MONTH = [0, 0, 31, 59, 90, 120, 151, 181, 212, 243, 273, 304, 334]"

text \<open>Both tables are read at a month from 1 to 12 only: index 0 is a placeholder.\<close>

definition days_in_month :: "nat \<Rightarrow> nat \<Rightarrow> nat" where
  "days_in_month y m = (if m = 2 \<and> is_leap y then 29 else DAYS_IN_MONTH ! m)"

definition check_date_fields :: "nat \<Rightarrow> nat \<Rightarrow> nat \<Rightarrow> bool" where
  "check_date_fields y m d =
     (1 \<le> y \<and> y \<le> 9999 \<and> 1 \<le> m \<and> m \<le> 12 \<and> 1 \<le> d \<and> d \<le> days_in_month y m)"

definition date_init :: "nat \<Rightarrow> nat \<Rightarrow> nat \<Rightarrow> error + date" where
  "date_init y m d =
     (if check_date_fields y m d then Inr \<lparr>year = y, month = m, day = d\<rparr>
      else Inl ValueError)"

definition datetime_init :: "nat \<Rightarrow> nat \<Rightarrow> nat \<Rightarrow> error + datetime" where
  "datetime_init y m d =
     (if check_date_fields y m d
      then Inr \<lparr>year = y, month = m, day = d,
                hour = 0, minute = 0, second = 0, microsecond = 0\<rparr>
      else Inl ValueError)"

definition days_before_year :: "nat \<Rightarrow> int" where
  "days_before_year y =
     (let y1 = int y - 1 in y1 * 365 + y1 div 4 - y1 div 100 + y1 div 400)"

definition days_before_month :: "nat \<Rightarrow> nat \<Rightarrow> int" where
  "days_before_month y m =
     int (DAYS_BEFORE_MONTH ! m) + (if m > 2 \<and> is_leap y then 1 else 0)"

definition ymd2ord :: "nat \<Rightarrow> nat \<Rightarrow> nat \<Rightarrow> int" where
  "ymd2ord y m d = days_before_year y + days_before_month y m + int d"

definition toordinal :: "'a date_scheme \<Rightarrow> int" where
  "toordinal t = ymd2ord (year t) (month t) (day t)"

text \<open>
  \<open>a - b\<close> on two datetimes builds a \<open>timedelta\<close> from the differences of the
  ordinals, of the seconds of the day and of the microseconds; the constructor
  normalises it, and \<open>.days\<close> is the floor of the difference in days.
\<close>

definition timedelta_days :: "int \<Rightarrow> int \<Rightarrow> int \<Rightarrow> int" where
  "timedelta_days days seconds microseconds =
     (days * 86400000000 + seconds * 1000000 + microseconds) div 86400000000"

definition seconds_of_day :: "datetime \<Rightarrow> int" where
  "seconds_of_day t = int (second t) + int (minute t) * 60 + int (hour t) * 3600"

definition datetime_sub_days :: "datetime \<Rightarrow> datetime \<Rightarrow> int" where
  "datetime_sub_days a b =
     timedelta_days (toordinal a - toordinal b)
       (seconds_of_day a - seconds_of_day b)
       (int (microsecond a) - int (microsecond b))"

text \<open>What \<open>datetime.today()\<close> can return: a datetime with fields in range.\<close>

definition valid_datetime :: "datetime \<Rightarrow> bool" where
  "valid_datetime t =
     (check_date_fields (year t) (month t) (day t) \<and>
      hour t < 24 \<and> minute t < 60 \<and> second t < 60 \<and> microsecond t < 1000000)"

subsection \<open>Parsing a date: \<open>datetime.strptime(birthday, "%d-%m-%Y")\<close>\<close>

text \<open>
  \<open>strptime\<close> turns the format into the regular expression
  \<^verbatim>\<open>(?P<d>3[0-1]|[1-2]\d|0[1-9]|[1-9]| [1-9])-(?P<m>1[0-2]|0[1-9]|[1-9])-(?P<Y>\d\d\d\d)\<close>,
  matches it at the start of the string, refuses a string with characters left over,
  converts the three groups with \<open>int\<close> and builds the date, which checks the fields.
  Each matcher below returns the text of its group and the rest of the string.  The
  alternatives are tried in the order of the expression; a later alternative never
  succeeds where an earlier one matched, since the hyphen that follows is not a digit.
\<close>

definition is_19 :: "nat \<Rightarrow> bool" where
  "is_19 c = (49 \<le> c \<and> c \<le> 57)"

fun match_d :: "pystr \<Rightarrow> (pystr \<times> pystr) option" where
  "match_d (a # b # r) =
     (if a = 51 \<and> (b = 48 \<or> b = 49) then Some ([a, b], r)
      else if (a = 49 \<or> a = 50) \<and> is_digit b then Some ([a, b], r)
      else if a = 48 \<and> is_19 b then Some ([a, b], r)
      else if is_19 a then Some ([a], b # r)
      else if a = 32 \<and> is_19 b then Some ([a, b], r)
      else None)"
| "match_d [a] = (if is_19 a then Some ([a], []) else None)"
| "match_d [] = None"

fun match_m :: "pystr \<Rightarrow> (pystr \<times> pystr) option" where
  "match_m (a # b # r) =
     (if a = 49 \<and> (b = 48 \<or> b = 49 \<or> b = 50) then Some ([a, b], r)
      else if a = 48 \<and> is_19 b then Some ([a, b], r)
      else if is_19 a then Some ([a], b # r)
      else None)"
| "match_m [a] = (if is_19 a then Some ([a], []) else None)"
| "match_m [] = None"

fun match_Y :: "pystr \<Rightarrow> (pystr \<times> pystr) option" where
  "match_Y (a # b # c # d # r) =
     (if is_digit a \<and> is_digit b \<and> is_digit c \<and> is_digit d
      then Some ([a, b, c, d], r) else None)"
| "match_Y _ = None"

fun match_hyphen :: "pystr \<Rightarrow> pystr option" where
  "match_hyphen (a # r) = (if a = 45 then Some r else None)"
| "match_hyphen [] = None"

definition re_match_dmY :: "pystr \<Rightarrow> (pystr \<times> pystr \<times> pystr \<times> pystr) option" where
  "re_match_dmY s =
     do {
       (d, r1) \<leftarrow> match_d s;
       r2 \<leftarrow> match_hyphen r1;
       (m, r3) \<leftarrow> match_m r2;
       r4 \<leftarrow> match_hyphen r3;
       (y, r5) \<leftarrow> match_Y r4;
       Some (d, m, y, r5)
     }"

text \<open>
  \<open>int(text)\<close> on the text of a group: blanks around the number are dropped and
  every decimal digit of Unicode counts with its digit value.
\<close>

fun digit_value_in :: "(nat \<times> nat) list \<Rightarrow> nat \<Rightarrow> nat" where
  "digit_value_in [] c = 0"
| "digit_value_in ((a, n) # rs) c =
     (if a \<le> c \<and> c < a + n then (c - a) mod 10 else digit_value_in rs c)"

definition digit_value :: "nat \<Rightarrow> nat" where
  "digit_value c = digit_value_in unicode_Nd c"

definition py_int :: "pystr \<Rightarrow> nat" where
  "py_int s = foldl (\<lambda>acc c. 10 * acc + digit_value c) 0 (dropWhile (\<lambda>c. c = 32) s)"

definition strptime_dmY :: "pystr \<Rightarrow> error + date" where
  "strptime_dmY s =
     (case re_match_dmY s of
        None \<Rightarrow> Inl ValueError
      | Some (d, m, y, rest) \<Rightarrow>
          if rest \<noteq> [] then Inl ValueError
          else date_init (py_int y) (py_int m) (py_int d))"

subsection \<open>Birthday\<close>

record Birthday =
  Birthday_value :: "date option"
  Birthday_Field_value :: "date option"

text \<open>
  The setter of \<open>Birthday.value\<close>: \<open>None\<close> is stored as it is; a string is parsed,
  and whatever the parser raises is raised again as \<open>ValueError\<close>.
\<close>

definition Birthday_set_value :: "pystr option \<Rightarrow> error + date option" where
  "Birthday_set_value birthday =
     (case birthday of
        None \<Rightarrow> Inr None
      | Some s \<Rightarrow>
          (case strptime_dmY s of
             Inr birthday_dt \<Rightarrow> Inr (Some birthday_dt)
           | Inl _ \<Rightarrow> Inl ValueError))"

definition Birthday_init :: "pystr option \<Rightarrow> error + Birthday" where
  "Birthday_init birthday =
     (case Birthday_set_value birthday of
        Inl e \<Rightarrow> Inl e
      | Inr v \<Rightarrow> Inr \<lparr>Birthday_value = v, Birthday_Field_value = v\<rparr>)"

text \<open>\<open>str\<close> of a date is its ISO form \<open>YYYY-MM-DD\<close>; \<open>str(None)\<close> is \<open>None\<close>.\<close>

definition digit_char :: "nat \<Rightarrow> nat" where
  "digit_char n = 48 + n mod 10"

definition date_str :: "date \<Rightarrow> pystr" where
  "date_str t =
     [digit_char (year t div 1000), digit_char (year t div 100),
      digit_char (year t div 10), digit_char (year t), 45,
      digit_char (month t div 10), digit_char (month t), 45,
      digit_char (day t div 10), digit_char (day t)]"

definition Birthday_str :: "Birthday \<Rightarrow> pystr" where
  "Birthday_str b =
     (case Birthday_Field_value b of
        None \<Rightarrow> ascii ''None''
      | Some t \<Rightarrow> date_str t)"

section \<open>Record\<close>

record Record =
  name :: Name
  phones :: "Phone list"
  birthday :: Birthday

definition Record_init :: "pystr \<Rightarrow> pystr option \<Rightarrow> error + Record" where
  "Record_init nm bd =
     (let n = Name_init nm in
      case Birthday_init bd of
        Inl e \<Rightarrow> Inl e
      | Inr b \<Rightarrow> Inr \<lparr>name = n, phones = [], birthday = b\<rparr>)"

text \<open>The object that \<open>Record(name)\<close> builds when no birthday is passed.\<close>

definition new_record :: "pystr \<Rightarrow> Record" where
  "new_record nm =
     \<lparr>name = Name_init nm, phones = [],
      birthday = \<lparr>Birthday_value = None, Birthday_Field_value = None\<rparr>\<rparr>"

text \<open>
  \<open>days_to_birthday\<close> reads the clock with \<open>datetime.today()\<close>; the model takes the
  value read as the argument \<open>today\<close>.  A date object is always true, so the test
  \<open>if self.birthday.value\<close> fails for \<open>None\<close> only.
\<close>

definition days_to_birthday :: "Record \<Rightarrow> datetime \<Rightarrow> error + int" where
  "days_to_birthday r today =
     (case Birthday_value (birthday r) of
        None \<Rightarrow> Inl ValueError
      | Some b \<Rightarrow>
          (let today_day = day today; today_month = month today; today_year = year today;
               birth_day = day b; birth_month = month b;
               next_birthday_year =
                 (if today_month > birth_month \<or>
                     (today_month = birth_month \<and> today_day > birth_day)
                  then today_year + 1 else today_year)
           in case datetime_init next_birthday_year birth_month birth_day of
                Inl e \<Rightarrow> Inl e
              | Inr t \<Rightarrow> Inr (datetime_sub_days t today)))"

text \<open>
  \<open>get_phone_by_number\<close> returns the first phone whose \<open>value\<close> is the number, with
  its index, or the pair \<open>(None, None)\<close>.
\<close>

fun get_phone_from :: "nat \<Rightarrow> Phone list \<Rightarrow> pystr \<Rightarrow> Phone option \<times> nat option" where
  "get_phone_from idx [] phone_num = (None, None)"
| "get_phone_from idx (phone # rest) phone_num =
     (if Phone_value phone = phone_num then (Some phone, Some idx)
      else get_phone_from (Suc idx) rest phone_num)"

definition get_phone_by_number :: "Record \<Rightarrow> pystr \<Rightarrow> Phone option \<times> nat option" where
  "get_phone_by_number r phone_num = get_phone_from 0 (phones r) phone_num"

text \<open>
  The mutating methods return the outcome of the call together with the record after
  it, so that the state after a raised exception is part of the model.
\<close>

definition add_phone :: "Record \<Rightarrow> pystr \<Rightarrow> (error + unit) \<times> Record" where
  "add_phone r phone_num =
     (case Phone_init phone_num of
        Inl e \<Rightarrow> (Inl e, r)
      | Inr p \<Rightarrow> (Inr (), r\<lparr>phones := phones r @ [p]\<rparr>))"

text \<open>A \<open>Phone\<close> object defines neither \<open>__bool__\<close> nor \<open>__len__\<close>: it is always true.\<close>

definition edit_phone :: "Record \<Rightarrow> pystr \<Rightarrow> pystr \<Rightarrow> (error + unit) \<times> Record" where
  "edit_phone r old_phone new_phone =
     (case get_phone_by_number r old_phone of
        (Some found_phone, Some idx) \<Rightarrow>
          (case Phone_assign (phones r ! idx) new_phone of
             Inl e \<Rightarrow> (Inl e, r)
           | Inr p \<Rightarrow> (Inr (), r\<lparr>phones := (phones r)[idx := p]\<rparr>))
      | _ \<Rightarrow> (Inl ValueError, r))"

text \<open>
  \<open>list.pop(index)\<close>: an index that is not an integer is a \<open>TypeError\<close>, an empty
  list or an index out of range an \<open>IndexError\<close>; a negative index counts from the end.
\<close>

definition list_pop :: "'a list \<Rightarrow> int option \<Rightarrow> error + ('a \<times> 'a list)" where
  "list_pop xs index =
     (case index of
        None \<Rightarrow> Inl TypeError
      | Some i \<Rightarrow>
          (let n = int (length xs); j = (if i < 0 then i + n else i)
           in if 0 \<le> j \<and> j < n
              then Inr (xs ! nat j, take (nat j) xs @ drop (Suc (nat j)) xs)
              else Inl IndexError))"

definition remove_phone :: "Record \<Rightarrow> pystr \<Rightarrow> (error + unit) \<times> Record" where
  "remove_phone r phone_num =
     (let idx = snd (get_phone_by_number r phone_num) in
      case list_pop (phones r) (map_option int idx) of
        Inl e \<Rightarrow> (Inl e, r)
      | Inr (_, rest) \<Rightarrow> (Inr (), r\<lparr>phones := rest\<rparr>))"

definition find_phone :: "Record \<Rightarrow> pystr \<Rightarrow> Phone option" where
  "find_phone r phone_num = fst (get_phone_by_number r phone_num)"

definition add_birthday :: "Record \<Rightarrow> pystr option \<Rightarrow> (error + unit) \<times> Record" where
  "add_birthday r bd =
     (case Birthday_init bd of
        Inl e \<Rightarrow> (Inl e, r)
      | Inr b \<Rightarrow> (Inr (), r\<lparr>birthday := b\<rparr>))"

section \<open>AddressBook\<close>

text \<open>
  \<open>AddressBook\<close> is a \<open>UserDict\<close>; its \<open>data\<close> is a dictionary, which keeps its keys
  in insertion order.  The model is the list of (key, record) pairs in that order,
  with at most one pair per key.
\<close>

type_synonym AddressBook = "(pystr \<times> Record) list"

definition dict_contains :: "AddressBook \<Rightarrow> pystr \<Rightarrow> bool" where
  "dict_contains data k = (k \<in> set (map fst data))"

text \<open>\<open>data[k] = v\<close>: a present key keeps its place, a new key goes to the end.\<close>

fun dict_set :: "AddressBook \<Rightarrow> pystr \<Rightarrow> Record \<Rightarrow> AddressBook" where
  "dict_set [] k v = [(k, v)]"
| "dict_set ((k', v') # rest) k v =
     (if k' = k then (k, v) # rest else (k', v') # dict_set rest k v)"

definition add_record :: "AddressBook \<Rightarrow> Record \<Rightarrow> (error + unit) \<times> AddressBook" where
  "add_record data record =
     (if \<not> dict_contains data (Name_value (name record))
      then (Inr (), dict_set data (Name_value (name record)) record)
      else (Inl RecordAlreadyExistsException, data))"

definition find_record :: "AddressBook \<Rightarrow> pystr \<Rightarrow> Record option" where
  "find_record data nm = map_of data nm"

text \<open>
  \<open>iterator\<close> is a generator; the model is the list of the chunks it yields.
  \<open>range(0, n, step)\<close> with a positive step counts up from 0 while below \<open>n\<close>, and
  is empty for a negative step; \<open>xs[start:stop]\<close> with indices that are not negative
  is the part of \<open>xs\<close> from \<open>start\<close> up to \<open>stop\<close>, cut at the end of the list.
\<close>

function range_from :: "nat \<Rightarrow> nat \<Rightarrow> nat \<Rightarrow> nat list" where
  "range_from i stop step =
     (if step = 0 \<or> stop \<le> i then [] else i # range_from (i + step) stop step)"
  by pat_completeness auto
termination
  by (relation "measure (\<lambda>(i, stop, step). stop - i)") auto

declare range_from.simps [simp del]

definition py_range :: "nat \<Rightarrow> int \<Rightarrow> nat list" where
  "py_range n step = (if step < 0 then [] else range_from 0 n (nat step))"

definition slice :: "'a list \<Rightarrow> nat \<Rightarrow> nat \<Rightarrow> 'a list" where
  "slice xs start stop = take (stop - start) (drop start xs)"

definition iterator :: "AddressBook \<Rightarrow> int option \<Rightarrow> Record list list" where
  "iterator data record_num =
     (let book_vals = map snd data;
          step = (case record_num of
                    None \<Rightarrow> 1
                  | Some n \<Rightarrow> if n = 0 then 1 else n)
      in map (\<lambda>i. slice book_vals i (i + nat step)) (py_range (length book_vals) step))"

section \<open>Reference notions for the claims\<close>

text \<open>The time of day of a datetime, in microseconds since midnight.\<close>

definition time_of_day :: "datetime \<Rightarrow> int" where
  "time_of_day t = seconds_of_day t * 1000000 + int (microsecond t)"

text \<open>
  The texts that the three groups of the date expression stand for, each as a
  predicate on the whole text of the group: a day is \<open>30\<close> or \<open>31\<close>, \<open>1\<close> or \<open>2\<close>
  and a digit, \<open>0\<close> and a digit from 1 to 9, one digit from 1 to 9, or a blank and a
  digit from 1 to 9; a month is \<open>10\<close>, \<open>11\<close> or \<open>12\<close>, \<open>0\<close> and a digit from 1
  to 9, or one digit from 1 to 9; a year is four digits.
\<close>

definition day_text :: "pystr \<Rightarrow> bool" where
  "day_text ds =
     (case ds of
        [a] \<Rightarrow> is_19 a
      | [a, b] \<Rightarrow>
          (a = 51 \<and> (b = 48 \<or> b = 49)) \<or> ((a = 49 \<or> a = 50) \<and> is_digit b) \<or>
          (a = 48 \<and> is_19 b) \<or> (a = 32 \<and> is_19 b)
      | _ \<Rightarrow> False)"

definition month_text :: "pystr \<Rightarrow> bool" where
  "month_text ms =
     (case ms of
        [a] \<Rightarrow> is_19 a
      | [a, b] \<Rightarrow> (a = 49 \<and> (b = 48 \<or> b = 49 \<or> b = 50)) \<or> (a = 48 \<and> is_19 b)
      | _ \<Rightarrow> False)"

definition year_text :: "pystr \<Rightarrow> bool" where
  "year_text ys = (length ys = 4 \<and> list_all is_digit ys)"

text \<open>
  The text of a date in the strict form \<open>DD-MM-YYYY\<close> of the specification: two
  ASCII digits, a hyphen, two ASCII digits, a hyphen, four ASCII digits.
\<close>

definition strict_dmY :: "nat \<Rightarrow> nat \<Rightarrow> nat \<Rightarrow> pystr" where
  "strict_dmY y m d =
     [digit_char (d div 10), digit_char d, 45, digit_char (m div 10), digit_char m, 45,
      digit_char (y div 1000), digit_char (y div 100), digit_char (y div 10), digit_char y]"

section \<open>Phone validation\<close>

lemma dropWhile_takeWhile_all:
  "length (takeWhile P (dropWhile (\<lambda>c. \<not> P c) xs)) = length xs \<longleftrightarrow> (\<forall>c\<in>set xs. P c)"
proof
  assume L: "length (takeWhile P (dropWhile (\<lambda>c. \<not> P c) xs)) = length xs"
  have "length (takeWhile P (dropWhile (\<lambda>c. \<not> P c) xs)) \<le> length (dropWhile (\<lambda>c. \<not> P c) xs)"
    by (rule length_takeWhile_le)
  moreover have "length (dropWhile (\<lambda>c. \<not> P c) xs) \<le> length xs"
    by (rule length_dropWhile_le)
  ultimately have D: "length (dropWhile (\<lambda>c. \<not> P c) xs) = length xs"
    and T: "length (takeWhile P (dropWhile (\<lambda>c. \<not> P c) xs)) = length (dropWhile (\<lambda>c. \<not> P c) xs)"
    using L by simp_all
  have "takeWhile (\<lambda>c. \<not> P c) xs @ dropWhile (\<lambda>c. \<not> P c) xs = xs"
    by simp
  then have "length (takeWhile (\<lambda>c. \<not> P c) xs) + length (dropWhile (\<lambda>c. \<not> P c) xs) = length xs"
    by (metis length_append)
  with D have "takeWhile (\<lambda>c. \<not> P c) xs = []" by simp
  then have X: "dropWhile (\<lambda>c. \<not> P c) xs = xs"
    by (metis append_Nil takeWhile_dropWhile_id)
  have "takeWhile P xs @ dropWhile P xs = xs" by simp
  then have "length (takeWhile P xs) + length (dropWhile P xs) = length xs"
    by (metis length_append)
  with T X have "dropWhile P xs = []" by simp
  then show "\<forall>c\<in>set xs. P c"
    by (simp add: dropWhile_eq_Nil_conv)
next
  assume A: "\<forall>c\<in>set xs. P c"
  then have D: "dropWhile (\<lambda>c. \<not> P c) xs = xs"
    by (cases xs) auto
  from A have T: "takeWhile P xs = xs"
    using takeWhile_eq_all_conv [of P xs] by blast
  show "length (takeWhile P (dropWhile (\<lambda>c. \<not> P c) xs)) = length xs"
    unfolding D T by (rule refl)
qed

lemma Phone_set_value_ok:
  "Phone_set_value s = Inr v \<longleftrightarrow> v = s \<and> length s = 10 \<and> (\<forall>c\<in>set s. is_digit c)"
proof (cases "dropWhile (\<lambda>c. \<not> is_digit c) s")
  case Nil
  have R: "re_search_digits s = None"
    unfolding re_search_digits_def Nil by simp
  from Nil have "\<forall>c\<in>set s. \<not> is_digit c"
    by (simp add: dropWhile_eq_Nil_conv)
  then have "length s = 10 \<Longrightarrow> \<not> (\<forall>c\<in>set s. is_digit c)"
    by (cases s) auto
  then show ?thesis
    unfolding Phone_set_value_def R by auto
next
  case (Cons a t)
  have R: "re_search_digits s = Some (takeWhile is_digit (dropWhile (\<lambda>c. \<not> is_digit c) s))"
    unfolding re_search_digits_def Cons by simp
  have "length (takeWhile is_digit (dropWhile (\<lambda>c. \<not> is_digit c) s)) = length s
          \<longleftrightarrow> (\<forall>c\<in>set s. is_digit c)"
    by (rule dropWhile_takeWhile_all)
  then show ?thesis
    unfolding Phone_set_value_def R by (auto simp: Let_def)
qed

lemma Phone_set_value_err:
  "Phone_set_value s = Inl e \<Longrightarrow> e = ValueError"
  by (auto simp: Phone_set_value_def Let_def split: if_splits)

lemma is_digit_ascii: "is_ascii_digit c \<Longrightarrow> is_digit c"
  by (simp add: is_ascii_digit_def is_digit_def unicode_Nd_def)

section \<open>Lookup in the phone list\<close>

lemma get_phone_from_shape:
  "get_phone_from k ps num = (None, None) \<or>
   (\<exists>i. k \<le> i \<and> i - k < length ps \<and> get_phone_from k ps num = (Some (ps ! (i - k)), Some i)
        \<and> Phone_value (ps ! (i - k)) = num
        \<and> (\<forall>j < i - k. Phone_value (ps ! j) \<noteq> num))"
proof (induction ps arbitrary: k)
  case Nil
  then show ?case by simp
next
  case (Cons p ps)
  show ?case
  proof (cases "Phone_value p = num")
    case True
    then have "get_phone_from k (p # ps) num = (Some ((p # ps) ! (k - k)), Some k)" by simp
    with True show ?thesis by (intro disjI2 exI [of _ k]) simp
  next
    case False
    from Cons [of "Suc k"] show ?thesis
    proof
      assume "get_phone_from (Suc k) ps num = (None, None)"
      with False show ?thesis by simp
    next
      assume "\<exists>i. Suc k \<le> i \<and> i - Suc k < length ps \<and>
          get_phone_from (Suc k) ps num = (Some (ps ! (i - Suc k)), Some i) \<and>
          Phone_value (ps ! (i - Suc k)) = num \<and> (\<forall>j<i - Suc k. Phone_value (ps ! j) \<noteq> num)"
      then obtain i where i: "Suc k \<le> i" "i - Suc k < length ps"
        "get_phone_from (Suc k) ps num = (Some (ps ! (i - Suc k)), Some i)"
        "Phone_value (ps ! (i - Suc k)) = num" "\<forall>j<i - Suc k. Phone_value (ps ! j) \<noteq> num"
        by blast
      from i(1) have E: "i - k = Suc (i - Suc k)" by simp
      have "\<forall>j<i - k. Phone_value ((p # ps) ! j) \<noteq> num"
      proof (intro allI impI)
        fix j assume "j < i - k"
        with E i(5) False show "Phone_value ((p # ps) ! j) \<noteq> num"
          by (cases j) auto
      qed
      with i False E show ?thesis
        by (intro disjI2 exI [of _ i]) simp
    qed
  qed
qed

lemma get_phone_from_None:
  "get_phone_from k ps num = (None, None) \<longleftrightarrow> num \<notin> Phone_value ` set ps"
  by (induction ps arbitrary: k) auto

lemma get_phone_from_found:
  "num \<in> Phone_value ` set ps \<Longrightarrow>
   \<exists>p i. get_phone_from k ps num = (Some p, Some i) \<and> Phone_value p = num"
  by (induction ps arbitrary: k) auto

section \<open>Dictionary and chunk lemmas\<close>

lemma dict_set_new:
  "\<not> dict_contains data k \<Longrightarrow> dict_set data k v = data @ [(k, v)]"
  by (induction data) (auto simp: dict_contains_def)

lemma find_append_new:
  "\<not> dict_contains data k \<Longrightarrow> find_record (data @ [(k, v)]) k = Some v"
  by (induction data) (auto simp: dict_contains_def find_record_def)

lemma find_dict_contains:
  "find_record data k = Some v \<Longrightarrow> dict_contains data k"
  unfolding find_record_def dict_contains_def
  by (metis fst_conv image_eqI map_of_SomeD set_map)

lemma range_from_stop:
  "step = 0 \<or> stop \<le> i \<Longrightarrow> range_from i stop step = []"
  by (subst range_from.simps) simp

lemma range_from_step:
  "step \<noteq> 0 \<Longrightarrow> i < stop \<Longrightarrow> range_from i stop step = i # range_from (i + step) stop step"
  by (subst range_from.simps) simp

lemma concat_chunks_from:
  "0 < n \<Longrightarrow>
   concat (map (\<lambda>j. slice xs j (j + n)) (range_from i (length xs) n)) = drop i xs"
proof (induction i "length xs" n rule: range_from.induct)
  case (1 i step)
  show ?case
  proof (cases "length xs \<le> i")
    case True
    then show ?thesis by (simp add: range_from_stop)
  next
    case False
    with 1 have IH: "concat (map (\<lambda>j. slice xs j (j + step)) (range_from (i + step) (length xs) step))
        = drop (i + step) xs" by simp
    have "take step (drop i xs) @ drop step (drop i xs) = drop i xs"
      by (rule append_take_drop_id)
    then have T: "take step (drop i xs) @ drop (i + step) xs = drop i xs"
      by (simp add: add.commute)
    from False 1(2) have "range_from i (length xs) step = i # range_from (i + step) (length xs) step"
      by (simp add: range_from_step)
    then show ?thesis
      using IH T by (simp add: slice_def)
  qed
qed

lemma range_from_bound:
  "j \<in> set (range_from i stop step) \<Longrightarrow> j < stop"
proof (induction i stop step rule: range_from.induct)
  case (1 i stop step)
  show ?case
  proof (cases "step = 0 \<or> stop \<le> i")
    case True
    with 1(2) show ?thesis by (simp add: range_from_stop)
  next
    case False
    then have "range_from i stop step = i # range_from (i + step) stop step"
      by (simp add: range_from_step)
    with 1 False show ?thesis by auto
  qed
qed

lemma range_from_butlast_bound:
  "j \<in> set (butlast (range_from i stop step)) \<Longrightarrow> j + step < stop"
proof (induction i stop step rule: range_from.induct)
  case (1 i stop step)
  show ?case
  proof (cases "step = 0 \<or> stop \<le> i")
    case True
    with 1(2) show ?thesis by (simp add: range_from_stop)
  next
    case False
    then have E: "range_from i stop step = i # range_from (i + step) stop step"
      by (simp add: range_from_step)
    show ?thesis
    proof (cases "stop \<le> i + step")
      case True
      then have "range_from (i + step) stop step = []"
        by (simp add: range_from_stop)
      with 1(2) E show ?thesis by simp
    next
      case N: False
      then have "range_from (i + step) stop step \<noteq> []"
        using False by (simp add: range_from_step)
      with 1(2) E have "j = i \<or> j \<in> set (butlast (range_from (i + step) stop step))"
        by auto
      then show ?thesis using 1(1) False N by auto
    qed
  qed
qed

lemma add_record_new:
  "\<not> dict_contains data (Name_value (name record)) \<Longrightarrow>
   add_record data record = (Inr (), data @ [(Name_value (name record), record)])"
  by (simp add: add_record_def dict_set_new)

lemma add_record_ok_shape:
  "add_record data record = (Inr (), data') \<Longrightarrow>
   \<not> dict_contains data (Name_value (name record)) \<and>
   data' = data @ [(Name_value (name record), record)]"
  by (auto simp: add_record_def dict_set_new split: if_splits)

section \<open>Editing the phone list\<close>

lemma get_phone_by_number_cases:
  "(get_phone_by_number r num = (None, None) \<and> num \<notin> Phone_value ` set (phones r)) \<or>
   (\<exists>i < length (phones r).
        get_phone_by_number r num = (Some (phones r ! i), Some i)
        \<and> Phone_value (phones r ! i) = num
        \<and> (\<forall>j < i. Phone_value (phones r ! j) \<noteq> num))"
  using get_phone_from_shape [of 0 "phones r" num] get_phone_from_None [of 0 "phones r" num]
  unfolding get_phone_by_number_def by auto

lemma edit_phone_ok_shape:
  assumes "edit_phone r old_phone new_phone = (Inr (), r')"
  shows "\<exists>i < length (phones r).
           get_phone_by_number r old_phone = (Some (phones r ! i), Some i)
           \<and> Phone_value (phones r ! i) = old_phone
           \<and> (\<forall>j < i. Phone_value (phones r ! j) \<noteq> old_phone)
           \<and> length new_phone = 10 \<and> (\<forall>c\<in>set new_phone. is_digit c)
           \<and> r' = r\<lparr>phones := (phones r)[i := (phones r ! i)\<lparr>Phone_value := new_phone\<rparr>]\<rparr>"
proof -
  from get_phone_by_number_cases [of r old_phone] show ?thesis
  proof
    assume "get_phone_by_number r old_phone = (None, None) \<and> old_phone \<notin> Phone_value ` set (phones r)"
    with assms show ?thesis by (simp add: edit_phone_def)
  next
    assume "\<exists>i<length (phones r).
        get_phone_by_number r old_phone = (Some (phones r ! i), Some i) \<and>
        Phone_value (phones r ! i) = old_phone \<and> (\<forall>j<i. Phone_value (phones r ! j) \<noteq> old_phone)"
    then obtain i where i: "i < length (phones r)"
      "get_phone_by_number r old_phone = (Some (phones r ! i), Some i)"
      "Phone_value (phones r ! i) = old_phone" "\<forall>j<i. Phone_value (phones r ! j) \<noteq> old_phone"
      by blast
    show ?thesis
    proof (cases "Phone_set_value new_phone")
      case (Inl e)
      with assms i(2) show ?thesis by (simp add: edit_phone_def Phone_assign_def)
    next
      case (Inr v)
      then have v: "v = new_phone" "length new_phone = 10" "\<forall>c\<in>set new_phone. is_digit c"
        using Phone_set_value_ok [of new_phone v] by simp_all
      from assms i(2) Inr v(1)
      have "r' = r\<lparr>phones := (phones r)[i := (phones r ! i)\<lparr>Phone_value := new_phone\<rparr>]\<rparr>"
        by (simp add: edit_phone_def Phone_assign_def)
      with i v show ?thesis by blast
    qed
  qed
qed

lemma find_phone_present:
  "num \<in> Phone_value ` set (phones r) \<Longrightarrow> \<exists>p. find_phone r num = Some p \<and> Phone_value p = num"
  using get_phone_from_found [of num "phones r" 0]
  by (auto simp: find_phone_def get_phone_by_number_def)

lemma find_phone_absent:
  "find_phone r num = None \<longleftrightarrow> num \<notin> Phone_value ` set (phones r)"
  using get_phone_by_number_cases [of r num]
  by (auto simp: find_phone_def)

lemma count_one_update:
  "count_list xs x = 1 \<Longrightarrow> i < length xs \<Longrightarrow> xs ! i = x \<Longrightarrow> y \<noteq> x \<Longrightarrow> x \<notin> set (xs[i := y])"
proof (induction xs arbitrary: i)
  case Nil
  then show ?case by simp
next
  case (Cons a xs)
  show ?case
  proof (cases i)
    case 0
    with Cons.prems have "a = x" "count_list xs x = 0" by auto
    then have "x \<notin> set xs" by (simp add: count_list_0_iff)
    with 0 Cons.prems show ?thesis by simp
  next
    case (Suc k)
    with Cons.prems have k: "k < length xs" "xs ! k = x" by auto
    then have "x \<in> set xs" by auto
    then have "count_list xs x \<noteq> 0" by (simp add: count_list_0_iff)
    with Cons.prems(1) have "a \<noteq> x" "count_list xs x = 1"
      by (auto split: if_splits)
    with Cons.IH [of k] k Cons.prems(4) Suc show ?thesis by simp
  qed
qed

section \<open>Differences of datetimes\<close>

lemma floor_days:
  fixes D x :: int
  assumes "0 \<le> x" "x < 86400000000"
  shows "(D * 86400000000 - x) div 86400000000 = (if x = 0 then D else D - 1)"
proof (cases "x = 0")
  case True
  then show ?thesis by simp
next
  case False
  with assms have "0 \<le> 86400000000 - x" "86400000000 - x < 86400000000" by simp_all
  then have Z: "(86400000000 - x) div 86400000000 = 0"
    by (rule div_pos_pos_trivial)
  have E: "D * 86400000000 - x = (86400000000 - x) + (D - 1) * 86400000000"
    by (simp add: algebra_simps)
  have "((86400000000 - x) + (D - 1) * 86400000000) div 86400000000
          = (D - 1) + (86400000000 - x) div 86400000000"
    by (rule div_mult_self1) simp
  then have "(D * 86400000000 - x) div 86400000000 = D - 1"
    unfolding E [symmetric] Z by simp
  with False show ?thesis by simp
qed

lemma time_of_day_range:
  "valid_datetime t \<Longrightarrow> 0 \<le> time_of_day t \<and> time_of_day t < 86400000000"
  by (auto simp: valid_datetime_def time_of_day_def seconds_of_day_def)

lemma time_of_day_zero:
  "time_of_day t = 0 \<longleftrightarrow> hour t = 0 \<and> minute t = 0 \<and> second t = 0 \<and> microsecond t = 0"
proof -
  have "0 \<le> seconds_of_day t * 1000000" "0 \<le> int (microsecond t)"
    by (simp_all add: seconds_of_day_def)
  then have "time_of_day t = 0 \<longleftrightarrow> seconds_of_day t = 0 \<and> microsecond t = 0"
    unfolding time_of_day_def by auto
  moreover have "seconds_of_day t = 0 \<longleftrightarrow> hour t = 0 \<and> minute t = 0 \<and> second t = 0"
    unfolding seconds_of_day_def by auto
  ultimately show ?thesis by blast
qed

lemma sub_midnight:
  assumes "valid_datetime today" "datetime_init y m d = Inr t"
  shows "datetime_sub_days t today =
           ymd2ord y m d - toordinal today - (if time_of_day today = 0 then 0 else 1)"
proof -
  from assms(2) have t: "t = \<lparr>year = y, month = m, day = d,
                hour = 0, minute = 0, second = 0, microsecond = 0\<rparr>"
    by (simp add: datetime_init_def split: if_splits)
  have "datetime_sub_days t today =
      ((ymd2ord y m d - toordinal today) * 86400000000 - time_of_day today) div 86400000000"
    unfolding t datetime_sub_days_def timedelta_days_def time_of_day_def
    by (simp add: toordinal_def seconds_of_day_def algebra_simps)
  also have "\<dots> = (if time_of_day today = 0 then ymd2ord y m d - toordinal today
                    else ymd2ord y m d - toordinal today - 1)"
    using time_of_day_range [OF assms(1)] by (intro floor_days) simp_all
  finally show ?thesis by simp
qed

section \<open>The date parser\<close>

lemma not_digit_hyphen: "\<not> is_digit 45" "\<not> is_19 45" "\<not> is_digit 32" "\<not> is_19 32"
  by (simp_all add: is_digit_def unicode_Nd_def is_19_def)

lemma is_19_digit: "is_19 c \<Longrightarrow> is_digit c"
  by (simp add: is_19_def is_digit_def unicode_Nd_def)

lemma match_d_sound:
  "match_d s = Some (ds, r) \<Longrightarrow> s = ds @ r \<and> day_text ds"
  by (induction s rule: match_d.induct) (auto simp: day_text_def split: if_splits)

lemma match_d_complete:
  "day_text ds \<Longrightarrow> match_d (ds @ 45 # r) = Some (ds, 45 # r)"
proof -
  assume D: "day_text ds"
  then consider a where "ds = [a]" "is_19 a"
    | a b where "ds = [a, b]" "(a = 51 \<and> (b = 48 \<or> b = 49)) \<or> ((a = 49 \<or> a = 50) \<and> is_digit b) \<or>
          (a = 48 \<and> is_19 b) \<or> (a = 32 \<and> is_19 b)"
    by (auto simp: day_text_def split: list.splits)
  then show ?thesis
  proof cases
    case 1
    then show ?thesis by (simp add: not_digit_hyphen)
  next
    case 2
    then show ?thesis by (auto simp: not_digit_hyphen is_19_def)
  qed
qed

lemma match_m_sound:
  "match_m s = Some (ms, r) \<Longrightarrow> s = ms @ r \<and> month_text ms"
  by (induction s rule: match_m.induct) (auto simp: month_text_def split: if_splits)

lemma match_m_complete:
  "month_text ms \<Longrightarrow> match_m (ms @ 45 # r) = Some (ms, 45 # r)"
proof -
  assume D: "month_text ms"
  then consider a where "ms = [a]" "is_19 a"
    | a b where "ms = [a, b]" "(a = 49 \<and> (b = 48 \<or> b = 49 \<or> b = 50)) \<or> (a = 48 \<and> is_19 b)"
    by (auto simp: month_text_def split: list.splits)
  then show ?thesis
  proof cases
    case 1
    then show ?thesis by (simp add: not_digit_hyphen)
  next
    case 2
    then show ?thesis by (auto simp: not_digit_hyphen is_19_def)
  qed
qed

lemma match_Y_sound:
  "match_Y s = Some (ys, r) \<Longrightarrow> s = ys @ r \<and> year_text ys"
  by (induction s rule: match_Y.induct) (auto simp: year_text_def split: if_splits)

lemma match_Y_complete:
  "year_text ys \<Longrightarrow> match_Y (ys @ r) = Some (ys, r)"
proof -
  assume "year_text ys"
  then obtain a b c d where "ys = [a, b, c, d]" "is_digit a" "is_digit b" "is_digit c" "is_digit d"
    unfolding year_text_def
    by (cases ys; cases "tl ys"; cases "tl (tl ys)"; cases "tl (tl (tl ys))") auto
  then show ?thesis by simp
qed

lemma match_hyphen_iff: "match_hyphen s = Some r \<longleftrightarrow> s = 45 # r"
  by (cases s) auto

lemma re_match_dmY_iff:
  "re_match_dmY s = Some (ds, ms, ys, rest) \<longleftrightarrow>
     s = ds @ 45 # ms @ 45 # ys @ rest \<and> day_text ds \<and> month_text ms \<and> year_text ys"
proof
  assume "re_match_dmY s = Some (ds, ms, ys, rest)"
  then obtain r1 r2 r3 r4 where
    "match_d s = Some (ds, r1)" "match_hyphen r1 = Some r2" "match_m r2 = Some (ms, r3)"
    "match_hyphen r3 = Some r4" "match_Y r4 = Some (ys, rest)"
    unfolding re_match_dmY_def by (auto split: Option.bind_splits)
  then show "s = ds @ 45 # ms @ 45 # ys @ rest \<and> day_text ds \<and> month_text ms \<and> year_text ys"
    using match_d_sound [of s ds r1] match_m_sound [of r2 ms r3] match_Y_sound [of r4 ys rest]
    by (simp add: match_hyphen_iff)
next
  assume A: "s = ds @ 45 # ms @ 45 # ys @ rest \<and> day_text ds \<and> month_text ms \<and> year_text ys"
  then have "match_d s = Some (ds, 45 # ms @ 45 # ys @ rest)"
    by (simp add: match_d_complete)
  moreover from A have "match_m (ms @ 45 # ys @ rest) = Some (ms, 45 # ys @ rest)"
    by (simp add: match_m_complete)
  moreover from A have "match_Y (ys @ rest) = Some (ys, rest)"
    by (simp add: match_Y_complete)
  ultimately show "re_match_dmY s = Some (ds, ms, ys, rest)"
    by (simp add: re_match_dmY_def)
qed

lemma strptime_dmY_iff:
  "strptime_dmY s = Inr t \<longleftrightarrow>
     (\<exists>ds ms ys. s = ds @ 45 # ms @ 45 # ys \<and> day_text ds \<and> month_text ms \<and> year_text ys
        \<and> check_date_fields (py_int ys) (py_int ms) (py_int ds)
        \<and> t = \<lparr>year = py_int ys, month = py_int ms, day = py_int ds\<rparr>)"
proof
  assume S: "strptime_dmY s = Inr t"
  then obtain ds ms ys rest where M: "re_match_dmY s = Some (ds, ms, ys, rest)"
    unfolding strptime_dmY_def by (cases "re_match_dmY s") auto
  with S have R: "rest = []" and D: "date_init (py_int ys) (py_int ms) (py_int ds) = Inr t"
    unfolding strptime_dmY_def by (auto split: if_splits)
  from D have "check_date_fields (py_int ys) (py_int ms) (py_int ds)"
    "t = \<lparr>year = py_int ys, month = py_int ms, day = py_int ds\<rparr>"
    by (auto simp: date_init_def split: if_splits)
  with M R re_match_dmY_iff [of s ds ms ys rest]
  show "\<exists>ds ms ys. s = ds @ 45 # ms @ 45 # ys \<and> day_text ds \<and> month_text ms \<and> year_text ys
        \<and> check_date_fields (py_int ys) (py_int ms) (py_int ds)
        \<and> t = \<lparr>year = py_int ys, month = py_int ms, day = py_int ds\<rparr>"
    by auto
next
  assume "\<exists>ds ms ys. s = ds @ 45 # ms @ 45 # ys \<and> day_text ds \<and> month_text ms \<and> year_text ys
        \<and> check_date_fields (py_int ys) (py_int ms) (py_int ds)
        \<and> t = \<lparr>year = py_int ys, month = py_int ms, day = py_int ds\<rparr>"
  then obtain ds ms ys where A: "s = ds @ 45 # ms @ 45 # ys" "day_text ds" "month_text ms"
    "year_text ys" "check_date_fields (py_int ys) (py_int ms) (py_int ds)"
    "t = \<lparr>year = py_int ys, month = py_int ms, day = py_int ds\<rparr>"
    by blast
  then have "re_match_dmY s = Some (ds, ms, ys, [])"
    using re_match_dmY_iff [of s ds ms ys "[]"] by simp
  with A(5,6) show "strptime_dmY s = Inr t"
    by (simp add: strptime_dmY_def date_init_def)
qed

lemma digit_value_ascii: "k < 10 \<Longrightarrow> digit_value (48 + k) = k"
  by (simp add: digit_value_def unicode_Nd_def)

lemma is_digit_digit_char: "is_digit (digit_char n)"
  by (simp add: digit_char_def is_digit_def unicode_Nd_def)

lemma digit_value_digit_char: "digit_value (digit_char n) = n mod 10"
  unfolding digit_char_def by (rule digit_value_ascii) simp

lemma py_int_2: "a \<noteq> 32 \<Longrightarrow> py_int [a, b] = 10 * digit_value a + digit_value b"
  by (simp add: py_int_def)

lemma py_int_4:
  "a \<noteq> 32 \<Longrightarrow> py_int [a, b, c, d] =
     1000 * digit_value a + 100 * digit_value b + 10 * digit_value c + digit_value d"
  by (simp add: py_int_def)

lemma digit_char_not_blank: "digit_char n \<noteq> 32"
  by (simp add: digit_char_def)

lemma days_in_month_le: "1 \<le> m \<Longrightarrow> m \<le> 12 \<Longrightarrow> days_in_month y m \<le> 31"
proof -
  assume "1 \<le> m" "m \<le> 12"
  then have "m = 1 \<or> m = 2 \<or> m = 3 \<or> m = 4 \<or> m = 5 \<or> m = 6 \<or> m = 7 \<or> m = 8 \<or> m = 9
      \<or> m = 10 \<or> m = 11 \<or> m = 12"
    by arith
  then show ?thesis
    by (auto simp: days_in_month_def DAYS_IN_MONTH_def)
qed

lemma two_digits: "n < 100 \<Longrightarrow> 10 * ((n div 10) mod 10) + n mod 10 = (n::nat)"
  using mod_mult2_eq [of n 10 10] by simp

lemma four_digits:
  "n < 10000 \<Longrightarrow>
   1000 * ((n div 1000) mod 10) + 100 * ((n div 100) mod 10) + 10 * ((n div 10) mod 10) + n mod 10
     = (n::nat)"
  using mod_mult2_eq [of n 10 10] mod_mult2_eq [of n 100 10] mod_mult2_eq [of n 1000 10]
  by simp

lemma strict_day:
  assumes "1 \<le> d" "d \<le> 31"
  shows "day_text [digit_char (d div 10), digit_char d]"
    and "py_int [digit_char (d div 10), digit_char d] = d"
proof -
  from assms have "d div 10 = 0 \<or> d div 10 = 1 \<or> d div 10 = 2 \<or> d div 10 = 3" by arith
  moreover from assms have "d div 10 = 0 \<Longrightarrow> 1 \<le> d mod 10" by arith
  moreover from assms have "d div 10 = 3 \<Longrightarrow> d mod 10 \<le> 1" by arith
  moreover have "d mod 10 < 10" by simp
  ultimately show "day_text [digit_char (d div 10), digit_char d]"
    using is_digit_digit_char [of d]
    by (auto simp: day_text_def digit_char_def is_19_def)
  from assms show "py_int [digit_char (d div 10), digit_char d] = d"
    by (simp add: py_int_2 digit_char_not_blank digit_value_digit_char two_digits)
qed

lemma strict_month:
  assumes "1 \<le> m" "m \<le> 12"
  shows "month_text [digit_char (m div 10), digit_char m]"
    and "py_int [digit_char (m div 10), digit_char m] = m"
proof -
  from assms have "m div 10 = 0 \<or> m div 10 = 1" by arith
  moreover from assms have "m div 10 = 0 \<Longrightarrow> 1 \<le> m mod 10" by arith
  moreover from assms have "m div 10 = 1 \<Longrightarrow> m mod 10 \<le> 2" by arith
  moreover have "m mod 10 < 10" by simp
  ultimately show "month_text [digit_char (m div 10), digit_char m]"
    by (auto simp: month_text_def digit_char_def is_19_def)
  from assms show "py_int [digit_char (m div 10), digit_char m] = m"
    by (simp add: py_int_2 digit_char_not_blank digit_value_digit_char two_digits)
qed

lemma strict_year:
  assumes "y \<le> 9999"
  shows "year_text [digit_char (y div 1000), digit_char (y div 100), digit_char (y div 10),
                    digit_char y]"
    and "py_int [digit_char (y div 1000), digit_char (y div 100), digit_char (y div 10),
                 digit_char y] = y"
proof -
  show "year_text [digit_char (y div 1000), digit_char (y div 100), digit_char (y div 10),
                    digit_char y]"
    by (simp add: year_text_def is_digit_digit_char)
  have "py_int [digit_char (y div 1000), digit_char (y div 100), digit_char (y div 10),
                 digit_char y]
        = 1000 * digit_value (digit_char (y div 1000)) + 100 * digit_value (digit_char (y div 100))
          + 10 * digit_value (digit_char (y div 10)) + digit_value (digit_char y)"
    by (rule py_int_4) (rule digit_char_not_blank)
  also have "\<dots> = 1000 * ((y div 1000) mod 10) + 100 * ((y div 100) mod 10)
          + 10 * ((y div 10) mod 10) + y mod 10"
    by (simp only: digit_value_digit_char)
  also from assms have "\<dots> = y"
    by (intro four_digits) simp
  finally show "py_int [digit_char (y div 1000), digit_char (y div 100), digit_char (y div 10),
                 digit_char y] = y" .
qed

lemma strptime_strict:
  assumes "check_date_fields y m d"
  shows "strptime_dmY (strict_dmY y m d) = Inr \<lparr>year = y, month = m, day = d\<rparr>"
proof -
  from assms have B: "1 \<le> d" "d \<le> 31" "1 \<le> m" "m \<le> 12" "y \<le> 9999"
    using days_in_month_le [of m y] by (auto simp: check_date_fields_def)
  let ?ds = "[digit_char (d div 10), digit_char d]"
  let ?ms = "[digit_char (m div 10), digit_char m]"
  let ?ys = "[digit_char (y div 1000), digit_char (y div 100), digit_char (y div 10), digit_char y]"
  have S: "strict_dmY y m d = ?ds @ 45 # ?ms @ 45 # ?ys"
    by (simp add: strict_dmY_def)
  have P: "py_int ?ds = d" "py_int ?ms = m" "py_int ?ys = y"
    using strict_day(2) [OF B(1,2)] strict_month(2) [OF B(3,4)] strict_year(2) [OF B(5)]
    by blast+
  have T: "day_text ?ds" "month_text ?ms" "year_text ?ys"
    using strict_day(1) [OF B(1,2)] strict_month(1) [OF B(3,4)] strict_year(1) [OF B(5)]
    by blast+
  have "\<exists>ds ms ys. strict_dmY y m d = ds @ 45 # ms @ 45 # ys \<and> day_text ds \<and> month_text ms
        \<and> year_text ys \<and> check_date_fields (py_int ys) (py_int ms) (py_int ds)
        \<and> \<lparr>year = y, month = m, day = d\<rparr> = \<lparr>year = py_int ys, month = py_int ms, day = py_int ds\<rparr>"
    apply (rule exI [of _ ?ds])
    apply (rule exI [of _ ?ms])
    apply (rule exI [of _ ?ys])
    unfolding P
    using S T assms
    apply blast
    done
  then show ?thesis
    by (rule iffD2 [OF strptime_dmY_iff])
qed

section \<open>Evaluation on concrete inputs\<close>

lemmas eval_record = Phone_init_def Phone_assign_def Phone_set_value_def re_search_digits_def is_digit_def
      unicode_Nd_def new_record_def Name_init_def Name_set_value_def Let_def ascii_def
      add_phone_def edit_phone_def find_phone_def get_phone_by_number_def remove_phone_def list_pop_def
      Phone_str_def

lemmas eval_birthday = Record_init_def Birthday_init_def Birthday_set_value_def strptime_dmY_def
  re_match_dmY_def is_19_def py_int_def digit_value_def is_digit_def unicode_Nd_def
  date_init_def check_date_fields_def days_in_month_def is_leap_def DAYS_IN_MONTH_def
  ascii_def Name_init_def Name_set_value_def Let_def

lemmas eval_days = days_to_birthday_def datetime_init_def check_date_fields_def days_in_month_def
  is_leap_def DAYS_IN_MONTH_def datetime_sub_days_def timedelta_days_def toordinal_def
  ymd2ord_def days_before_year_def days_before_month_def DAYS_BEFORE_MONTH_def
  seconds_of_day_def Let_def

section \<open>The claims\<close>

text \<open>
  Claim C1, as the code has it.  Constructing a \<open>Phone\<close> from \<open>s\<close> succeeds exactly
  when \<open>s\<close> has 10 characters and each of them is a decimal digit of Unicode, the
  class that \<open>\d\<close> matches; the new object then holds \<open>s\<close> in both attributes, so its
  value and its rendering are \<open>s\<close>.  Every other string raises \<open>ValueError\<close>.  The
  ASCII digits are among the accepted ones: a string of 10 ASCII digits is accepted.
\<close>

theorem C1_phone_validation:
  "(Phone_init s = Inr p \<longleftrightarrow>
      length s = 10 \<and> (\<forall>c\<in>set s. is_digit c) \<and>
      p = \<lparr>Phone_value = s, Phone_Field_value = s\<rparr>)
   \<and> (Phone_init s = Inl e \<longleftrightarrow>
        e = ValueError \<and> \<not> (length s = 10 \<and> (\<forall>c\<in>set s. is_digit c)))
   \<and> (length s = 10 \<and> (\<forall>c\<in>set s. is_ascii_digit c) \<longrightarrow>
        (\<exists>q. Phone_init s = Inr q \<and> Phone_str q = s \<and> Phone_value q = s))"
proof (intro conjI)
  show "Phone_init s = Inr p \<longleftrightarrow>
      length s = 10 \<and> (\<forall>c\<in>set s. is_digit c) \<and>
      p = \<lparr>Phone_value = s, Phone_Field_value = s\<rparr>"
    using Phone_set_value_ok [of s]
    by (cases "Phone_set_value s") (auto simp: Phone_init_def)
  show "Phone_init s = Inl e \<longleftrightarrow>
        e = ValueError \<and> \<not> (length s = 10 \<and> (\<forall>c\<in>set s. is_digit c))"
    using Phone_set_value_ok [of s] Phone_set_value_err [of s]
    by (cases "Phone_set_value s") (auto simp: Phone_init_def)
  show "length s = 10 \<and> (\<forall>c\<in>set s. is_ascii_digit c) \<longrightarrow>
        (\<exists>q. Phone_init s = Inr q \<and> Phone_str q = s \<and> Phone_value q = s)"
    using Phone_set_value_ok [of s s] is_digit_ascii
    by (auto simp: Phone_init_def Phone_str_def)
qed

theorem C1_phone_validation_witness:
  "Phone_init (ascii ''0671234567'')
     = Inr \<lparr>Phone_value = ascii ''0671234567'', Phone_Field_value = ascii ''0671234567''\<rparr>
   \<and> Phone_init (ascii ''067-123-45'') = Inl ValueError"
  using C1_phone_validation [of "ascii ''0671234567''"
      "\<lparr>Phone_value = ascii ''0671234567'', Phone_Field_value = ascii ''0671234567''\<rparr>"
      ValueError]
    C1_phone_validation [of "ascii ''067-123-45''"
      "\<lparr>Phone_value = ascii ''0671234567'', Phone_Field_value = ascii ''0671234567''\<rparr>"
      ValueError]
  by (simp add: ascii_def is_digit_def unicode_Nd_def)

text \<open>
  The claim as the specification words it asks for ASCII digits.  The ten Arabic-Indic
  digits U+0660 to U+0669 make a string of 10 characters, none of them an ASCII
  digit, and the constructor accepts it.
\<close>

theorem C1_unicode_digits_counterexample:
  "Phone_init [1632, 1633, 1634, 1635, 1636, 1637, 1638, 1639, 1640, 1641]
     = Inr \<lparr>Phone_value = [1632, 1633, 1634, 1635, 1636, 1637, 1638, 1639, 1640, 1641],
            Phone_Field_value = [1632, 1633, 1634, 1635, 1636, 1637, 1638, 1639, 1640, 1641]\<rparr>
   \<and> \<not> is_ascii_digit 1632"
  by (simp add: Phone_init_def Phone_set_value_def re_search_digits_def is_digit_def
      unicode_Nd_def is_ascii_digit_def)

text \<open>
  Claim C2.  When the book holds a record under the key \<open>A\<close>, \<open>add_record\<close> with
  a record named \<open>A\<close> raises \<open>RecordAlreadyExistsException\<close> and leaves the book as
  it was, so the key \<open>A\<close> still leads to the original record.  In particular a second
  \<open>add_record\<close> under the name of a record that was just added fails that way.
\<close>

theorem C2_add_record_duplicate:
  "(find_record data A = Some orig \<and> Name_value (name record) = A \<longrightarrow>
      add_record data record = (Inl RecordAlreadyExistsException, data) \<and>
      find_record (snd (add_record data record)) A = Some orig)
   \<and> (add_record data0 rec1 = (Inr (), data1) \<and>
        Name_value (name rec2) = Name_value (name rec1) \<longrightarrow>
      add_record data1 rec2 = (Inl RecordAlreadyExistsException, data1) \<and>
      find_record data1 (Name_value (name rec1)) = Some rec1)"
proof (intro conjI impI)
  assume H: "find_record data A = Some orig \<and> Name_value (name record) = A"
  then have "dict_contains data (Name_value (name record))"
    using find_dict_contains by blast
  then show R: "add_record data record = (Inl RecordAlreadyExistsException, data)"
    by (simp add: add_record_def)
  from H show "find_record (snd (add_record data record)) A = Some orig"
    unfolding R by simp
next
  assume H: "add_record data0 rec1 = (Inr (), data1) \<and>
        Name_value (name rec2) = Name_value (name rec1)"
  then have N: "\<not> dict_contains data0 (Name_value (name rec1))"
    and D: "data1 = data0 @ [(Name_value (name rec1), rec1)]"
    using add_record_ok_shape [of data0 rec1 data1] by simp_all
  from N show F: "find_record data1 (Name_value (name rec1)) = Some rec1"
    unfolding D by (rule find_append_new)
  then have "dict_contains data1 (Name_value (name rec2))"
    using H find_dict_contains by metis
  then show "add_record data1 rec2 = (Inl RecordAlreadyExistsException, data1)"
    by (simp add: add_record_def)
qed

theorem C2_add_record_duplicate_witness:
  "add_record [(ascii ''A'', new_record (ascii ''A''))]
       ((new_record (ascii ''A''))
          \<lparr>phones := [\<lparr>Phone_value = ascii ''0671234567'',
                       Phone_Field_value = ascii ''0671234567''\<rparr>]\<rparr>)
     = (Inl RecordAlreadyExistsException, [(ascii ''A'', new_record (ascii ''A''))])
   \<and> add_record [] (new_record (ascii ''A''))
     = (Inr (), [(ascii ''A'', new_record (ascii ''A''))])"
  using C2_add_record_duplicate [of "[(ascii ''A'', new_record (ascii ''A''))]" "ascii ''A''"
     "new_record (ascii ''A'')"
     "(new_record (ascii ''A''))
          \<lparr>phones := [\<lparr>Phone_value = ascii ''0671234567'',
                       Phone_Field_value = ascii ''0671234567''\<rparr>]\<rparr>"
     "[]" "new_record (ascii ''A'')" "[(ascii ''A'', new_record (ascii ''A''))]"
     "new_record (ascii ''A'')"]
  by (simp add: find_record_def new_record_def Name_init_def Name_set_value_def
      add_record_def dict_contains_def ascii_def Let_def)

text \<open>
  Claim C3.  For a chunk size \<open>n \<ge> 1\<close> the chunks that \<open>iterator\<close> yields,
  put end to end, are the records of the book in insertion order; no chunk is empty or
  longer than \<open>n\<close>, and every chunk but the last has exactly \<open>n\<close> records.  Five
  records with chunk size 2 give \<open>[[A, B], [C, D], [E]]\<close>.  A chunk size of
  \<open>None\<close> or of 0 gives what chunk size 1 gives.
\<close>

theorem C3_iterator_chunks:
  "(1 \<le> n \<longrightarrow>
     concat (iterator data (Some n)) = map snd data
     \<and> (\<forall>c\<in>set (iterator data (Some n)). 1 \<le> length c \<and> length c \<le> nat n)
     \<and> (\<forall>c\<in>set (butlast (iterator data (Some n))). length c = nat n))
   \<and> iterator [(ka, A), (kb, B), (kc, C), (kd, D), (ke, E)] (Some 2) = [[A, B], [C, D], [E]]
   \<and> iterator data None = iterator data (Some 1)
   \<and> iterator data (Some 0) = iterator data (Some 1)"
proof (intro conjI impI)
  assume n: "1 \<le> n"
  let ?xs = "map snd data"
  have I: "iterator data (Some n)
      = map (\<lambda>j. slice ?xs j (j + nat n)) (range_from 0 (length ?xs) (nat n))"
    using n by (simp add: iterator_def py_range_def Let_def)
  show "concat (iterator data (Some n)) = map snd data"
    unfolding I using concat_chunks_from [of "nat n" ?xs 0] n by simp
  show "\<forall>c\<in>set (iterator data (Some n)). 1 \<le> length c \<and> length c \<le> nat n"
  proof
    fix c assume "c \<in> set (iterator data (Some n))"
    then obtain j where j: "j \<in> set (range_from 0 (length ?xs) (nat n))"
      and c: "c = slice ?xs j (j + nat n)"
      unfolding I by auto
    from j have "j < length ?xs" by (rule range_from_bound)
    with c n show "1 \<le> length c \<and> length c \<le> nat n"
      by (auto simp: slice_def)
  qed
  show "\<forall>c\<in>set (butlast (iterator data (Some n))). length c = nat n"
  proof
    fix c assume "c \<in> set (butlast (iterator data (Some n)))"
    then obtain j where j: "j \<in> set (butlast (range_from 0 (length ?xs) (nat n)))"
      and c: "c = slice ?xs j (j + nat n)"
      unfolding I map_butlast [symmetric] by auto
    from j have "j + nat n < length ?xs" by (rule range_from_butlast_bound)
    with c show "length c = nat n"
      by (simp add: slice_def)
  qed
next
  show "iterator [(ka, A), (kb, B), (kc, C), (kd, D), (ke, E)] (Some 2) = [[A, B], [C, D], [E]]"
    by (simp add: iterator_def py_range_def slice_def range_from_step range_from_stop)
  show "iterator data None = iterator data (Some 1)"
    by (simp add: iterator_def)
  show "iterator data (Some 0) = iterator data (Some 1)"
    by (simp add: iterator_def)
qed

theorem C3_iterator_chunks_witness:
  "iterator [(ascii ''A'', new_record (ascii ''A'')), (ascii ''B'', new_record (ascii ''B'')),
             (ascii ''C'', new_record (ascii ''C''))] (Some 2)
     = [[new_record (ascii ''A''), new_record (ascii ''B'')], [new_record (ascii ''C'')]]
   \<and> concat (iterator [(ascii ''A'', new_record (ascii ''A'')),
             (ascii ''B'', new_record (ascii ''B'')),
             (ascii ''C'', new_record (ascii ''C''))] (Some 2))
     = [new_record (ascii ''A''), new_record (ascii ''B''), new_record (ascii ''C'')]"
  using C3_iterator_chunks [of 2 "[(ascii ''A'', new_record (ascii ''A'')),
             (ascii ''B'', new_record (ascii ''B'')),
             (ascii ''C'', new_record (ascii ''C''))]"]
  by (simp add: iterator_def py_range_def slice_def range_from_step range_from_stop)

text \<open>
  Claim C10.  \<open>Name\<close> accepts every string: the constructor has no failing branch
  and stores the string as it is, the empty one included.  \<open>Record(name)\<close> with no
  birthday therefore always succeeds, and a record with the empty name is added to a
  book that has no empty key, where the empty key then leads to it.
\<close>

theorem C10_name_unvalidated:
  "Name_init s = \<lparr>Name_value = s, Name_Field_value = s\<rparr>
   \<and> Name_str (Name_init s) = s
   \<and> Record_init s None = Inr (new_record s)
   \<and> Name_value (name (new_record s)) = s
   \<and> (\<not> dict_contains data [] \<longrightarrow>
        add_record data (new_record []) = (Inr (), data @ [([], new_record [])]) \<and>
        find_record (data @ [([], new_record [])]) [] = Some (new_record []))"
proof (intro conjI impI)
  show "Name_init s = \<lparr>Name_value = s, Name_Field_value = s\<rparr>"
    by (simp add: Name_init_def Name_set_value_def)
  show "Name_str (Name_init s) = s"
    by (simp add: Name_init_def Name_set_value_def Name_str_def)
  show "Record_init s None = Inr (new_record s)"
    by (simp add: Record_init_def new_record_def Birthday_init_def Birthday_set_value_def)
  show N: "Name_value (name (new_record s)) = s"
    by (simp add: new_record_def Name_init_def Name_set_value_def)
next
  assume D: "\<not> dict_contains data []"
  have N: "Name_value (name (new_record [])) = []"
    by (simp add: new_record_def Name_init_def Name_set_value_def)
  from D show "add_record data (new_record []) = (Inr (), data @ [([], new_record [])])"
    using add_record_new [of data "new_record []"] unfolding N by simp
  from D show "find_record (data @ [([], new_record [])]) [] = Some (new_record [])"
    by (rule find_append_new)
qed

theorem C10_name_unvalidated_witness:
  "Record_init [] None = Inr (new_record [])
   \<and> add_record [(ascii ''A'', new_record (ascii ''A''))] (new_record [])
       = (Inr (), [(ascii ''A'', new_record (ascii ''A'')), ([], new_record [])])
   \<and> find_record [(ascii ''A'', new_record (ascii ''A'')), ([], new_record [])] []
       = Some (new_record [])"
  using C10_name_unvalidated [of "[]" "[(ascii ''A'', new_record (ascii ''A''))]"]
  by (simp add: dict_contains_def ascii_def new_record_def Name_init_def Name_set_value_def
      Let_def)

text \<open>
  Claim C4, as the code has it.  Let the record have the birthday \<open>b\<close>, let
  \<open>today\<close> be the datetime that the clock returns, with a month and day other than
  those of \<open>b\<close>, and let the target year be the current year when today's month and
  day are earlier than those of \<open>b\<close> and the following year when they are later.
  When the birth day and month exist in the target year, \<open>days_to_birthday\<close> returns
  the whole days from the current instant to midnight at the start of the next
  birthday: the difference of the two calendar days when the clock reads midnight
  exactly, and one day less at any other time of day.
\<close>

theorem C4_days_to_birthday:
  assumes "Birthday_value (birthday r) = Some b"
    and "valid_datetime today"
    and "(month today, day today) \<noteq> (month b, day b)"
    and "ny = (if month today < month b \<or> (month today = month b \<and> day today < day b)
               then year today else year today + 1)"
    and "check_date_fields ny (month b) (day b)"
  shows "days_to_birthday r today =
           Inr (ymd2ord ny (month b) (day b) - toordinal today
                - (if hour today = 0 \<and> minute today = 0 \<and> second today = 0 \<and>
                      microsecond today = 0 then 0 else 1))"
proof -
  have Y: "(if month today > month b \<or> (month today = month b \<and> day today > day b)
            then year today + 1 else year today) = ny"
    using assms(3,4) by auto
  obtain t where t: "datetime_init ny (month b) (day b) = Inr t"
    using assms(5) by (simp add: datetime_init_def)
  have "days_to_birthday r today =
          (case datetime_init
                  (if month today > month b \<or> (month today = month b \<and> day today > day b)
                   then year today + 1 else year today) (month b) (day b) of
             Inl e \<Rightarrow> Inl e
           | Inr t \<Rightarrow> Inr (datetime_sub_days t today))"
    using assms(1) by (simp add: days_to_birthday_def Let_def)
  then have "days_to_birthday r today = Inr (datetime_sub_days t today)"
    unfolding Y t by simp
  then show ?thesis
    using sub_midnight [OF assms(2) t] time_of_day_zero [of today] by simp
qed

theorem C4_days_to_birthday_witness:
  "Record_init (ascii ''A'') (Some (ascii ''15-03-1990'')) = Inr
     \<lparr>name = \<lparr>Name_value = ascii ''A'', Name_Field_value = ascii ''A''\<rparr>, phones = [],
      birthday = \<lparr>Birthday_value = Some \<lparr>year = 1990, month = 3, day = 15\<rparr>,
                  Birthday_Field_value = Some \<lparr>year = 1990, month = 3, day = 15\<rparr>\<rparr>\<rparr>
   \<and> days_to_birthday
     \<lparr>name = \<lparr>Name_value = ascii ''A'', Name_Field_value = ascii ''A''\<rparr>, phones = [],
      birthday = \<lparr>Birthday_value = Some \<lparr>year = 1990, month = 3, day = 15\<rparr>,
                  Birthday_Field_value = Some \<lparr>year = 1990, month = 3, day = 15\<rparr>\<rparr>\<rparr>
     \<lparr>year = 2024, month = 3, day = 10, hour = 0, minute = 0, second = 0, microsecond = 0\<rparr>
     = Inr 5
   \<and> days_to_birthday
     \<lparr>name = \<lparr>Name_value = ascii ''A'', Name_Field_value = ascii ''A''\<rparr>, phones = [],
      birthday = \<lparr>Birthday_value = Some \<lparr>year = 1990, month = 3, day = 15\<rparr>,
                  Birthday_Field_value = Some \<lparr>year = 1990, month = 3, day = 15\<rparr>\<rparr>\<rparr>
     \<lparr>year = 2024, month = 3, day = 20, hour = 0, minute = 0, second = 0, microsecond = 0\<rparr>
     = Inr 360
   \<and> days_to_birthday
     \<lparr>name = \<lparr>Name_value = ascii ''A'', Name_Field_value = ascii ''A''\<rparr>, phones = [],
      birthday = \<lparr>Birthday_value = Some \<lparr>year = 1990, month = 3, day = 15\<rparr>,
                  Birthday_Field_value = Some \<lparr>year = 1990, month = 3, day = 15\<rparr>\<rparr>\<rparr>
     \<lparr>year = 2024, month = 3, day = 20, hour = 8, minute = 30, second = 0, microsecond = 0\<rparr>
     = Inr 359"
  using C4_days_to_birthday [of
     "\<lparr>name = \<lparr>Name_value = ascii ''A'', Name_Field_value = ascii ''A''\<rparr>, phones = [],
      birthday = \<lparr>Birthday_value = Some \<lparr>year = 1990, month = 3, day = 15\<rparr>,
                  Birthday_Field_value = Some \<lparr>year = 1990, month = 3, day = 15\<rparr>\<rparr>\<rparr>"
     "\<lparr>year = 1990, month = 3, day = 15\<rparr>"
     "\<lparr>year = 2024, month = 3, day = 10, hour = 0, minute = 0, second = 0, microsecond = 0\<rparr>"
     2024]
   C4_days_to_birthday [of
     "\<lparr>name = \<lparr>Name_value = ascii ''A'', Name_Field_value = ascii ''A''\<rparr>, phones = [],
      birthday = \<lparr>Birthday_value = Some \<lparr>year = 1990, month = 3, day = 15\<rparr>,
                  Birthday_Field_value = Some \<lparr>year = 1990, month = 3, day = 15\<rparr>\<rparr>\<rparr>"
     "\<lparr>year = 1990, month = 3, day = 15\<rparr>"
     "\<lparr>year = 2024, month = 3, day = 20, hour = 0, minute = 0, second = 0, microsecond = 0\<rparr>"
     2025]
   C4_days_to_birthday [of
     "\<lparr>name = \<lparr>Name_value = ascii ''A'', Name_Field_value = ascii ''A''\<rparr>, phones = [],
      birthday = \<lparr>Birthday_value = Some \<lparr>year = 1990, month = 3, day = 15\<rparr>,
                  Birthday_Field_value = Some \<lparr>year = 1990, month = 3, day = 15\<rparr>\<rparr>\<rparr>"
     "\<lparr>year = 1990, month = 3, day = 15\<rparr>"
     "\<lparr>year = 2024, month = 3, day = 20, hour = 8, minute = 30, second = 0, microsecond = 0\<rparr>"
     2025]
  by (simp add: eval_birthday valid_datetime_def toordinal_def ymd2ord_def days_before_year_def
      days_before_month_def DAYS_BEFORE_MONTH_def)

text \<open>
  The claim as the specification words it gives 5 for today = 2024-03-10 and a birthday
  on 15 March.  \<open>datetime.today()\<close> carries the time of day: at noon of 2024-03-10
  the difference to midnight of 2024-03-15 is four days and a half, and the method
  returns 4.
\<close>

theorem C4_noon_counterexample:
  "days_to_birthday
     \<lparr>name = \<lparr>Name_value = ascii ''A'', Name_Field_value = ascii ''A''\<rparr>, phones = [],
      birthday = \<lparr>Birthday_value = Some \<lparr>year = 1990, month = 3, day = 15\<rparr>,
                  Birthday_Field_value = Some \<lparr>year = 1990, month = 3, day = 15\<rparr>\<rparr>\<rparr>
     \<lparr>year = 2024, month = 3, day = 10, hour = 12, minute = 0, second = 0, microsecond = 0\<rparr>
   = Inr 4"
  by (simp add: eval_days)

text \<open>
  Claim C5 says that \<open>remove_phone\<close> with a number that the record does not hold
  does nothing and does not fail.  The lookup then returns the index \<open>None\<close>, which
  \<open>remove_phone\<close> passes to \<open>list.pop\<close> unchecked: the call raises \<open>TypeError\<close>.
  The phone list stays as it was.
\<close>

theorem C5_remove_absent_raises:
  "add_phone (new_record (ascii ''A'')) (ascii ''1234567890'')
     = (Inr (), (new_record (ascii ''A''))
          \<lparr>phones := [\<lparr>Phone_value = ascii ''1234567890'',
                       Phone_Field_value = ascii ''1234567890''\<rparr>]\<rparr>)
   \<and> find_phone ((new_record (ascii ''A''))
          \<lparr>phones := [\<lparr>Phone_value = ascii ''1234567890'',
                       Phone_Field_value = ascii ''1234567890''\<rparr>]\<rparr>) (ascii ''0987654321'') = None
   \<and> remove_phone ((new_record (ascii ''A''))
          \<lparr>phones := [\<lparr>Phone_value = ascii ''1234567890'',
                       Phone_Field_value = ascii ''1234567890''\<rparr>]\<rparr>) (ascii ''0987654321'')
     = (Inl TypeError, (new_record (ascii ''A''))
          \<lparr>phones := [\<lparr>Phone_value = ascii ''1234567890'',
                       Phone_Field_value = ascii ''1234567890''\<rparr>]\<rparr>)"
  by (simp add: eval_record)

text \<open>
  Claim C6 says that the rendering of a field shows the value it holds, also after
  \<open>edit_phone\<close>.  \<open>Field.__str__\<close> reads \<open>_Field__value\<close>, which only
  \<open>Field.__init__\<close> writes, while the setter of \<open>Phone.value\<close> writes
  \<open>_Phone__value\<close>: after \<open>edit_phone\<close> the phone holds the new number and its
  rendering is still the old one.
\<close>

theorem C6_str_stale_after_edit:
  "edit_phone ((new_record (ascii ''A''))
          \<lparr>phones := [\<lparr>Phone_value = ascii ''1234567890'',
                       Phone_Field_value = ascii ''1234567890''\<rparr>]\<rparr>)
        (ascii ''1234567890'') (ascii ''0987654321'')
     = (Inr (), (new_record (ascii ''A''))
          \<lparr>phones := [\<lparr>Phone_value = ascii ''0987654321'',
                       Phone_Field_value = ascii ''1234567890''\<rparr>]\<rparr>)
   \<and> Phone_value \<lparr>Phone_value = ascii ''0987654321'',
                   Phone_Field_value = ascii ''1234567890''\<rparr> = ascii ''0987654321''
   \<and> Phone_str \<lparr>Phone_value = ascii ''0987654321'',
                 Phone_Field_value = ascii ''1234567890''\<rparr> = ascii ''1234567890''
   \<and> ascii ''1234567890'' \<noteq> ascii ''0987654321''"
  by (simp add: eval_record)

text \<open>
  Claim C7, as the code has it.  Constructing a \<open>Birthday\<close> from a string succeeds
  exactly when the string is a day text, a hyphen, a month text, a hyphen and a
  year text, in the sense of \<open>day_text\<close>, \<open>month_text\<close> and \<open>year_text\<close> (one
  or two digits for the day and for the month, four digits for the year), and the three
  numbers are a date that the date constructor accepts: a year from 1 to 9999, a month
  from 1 to 12 and a day that the month has; the object then holds that date.  Every
  other string raises \<open>ValueError\<close>.  In particular the strict text \<open>DD-MM-YYYY\<close>
  of every such date is accepted, and \<open>31-02-2021\<close> is refused.
\<close>

theorem C7_birthday_parsing:
  "(Birthday_init (Some s) = Inr b \<longleftrightarrow>
      (\<exists>ds ms ys. s = ds @ 45 # ms @ 45 # ys \<and> day_text ds \<and> month_text ms \<and> year_text ys
         \<and> check_date_fields (py_int ys) (py_int ms) (py_int ds)
         \<and> b = \<lparr>Birthday_value = Some \<lparr>year = py_int ys, month = py_int ms, day = py_int ds\<rparr>,
                Birthday_Field_value =
                  Some \<lparr>year = py_int ys, month = py_int ms, day = py_int ds\<rparr>\<rparr>))
   \<and> (Birthday_init (Some s) = Inl e \<longrightarrow> e = ValueError)
   \<and> (check_date_fields y m d \<longrightarrow>
        Birthday_init (Some (strict_dmY y m d))
          = Inr \<lparr>Birthday_value = Some \<lparr>year = y, month = m, day = d\<rparr>,
                 Birthday_Field_value = Some \<lparr>year = y, month = m, day = d\<rparr>\<rparr>)
   \<and> Birthday_init (Some (ascii ''31-02-2021'')) = Inl ValueError"
proof (intro conjI impI)
  show "Birthday_init (Some s) = Inr b \<longleftrightarrow>
      (\<exists>ds ms ys. s = ds @ 45 # ms @ 45 # ys \<and> day_text ds \<and> month_text ms \<and> year_text ys
         \<and> check_date_fields (py_int ys) (py_int ms) (py_int ds)
         \<and> b = \<lparr>Birthday_value = Some \<lparr>year = py_int ys, month = py_int ms, day = py_int ds\<rparr>,
                Birthday_Field_value =
                  Some \<lparr>year = py_int ys, month = py_int ms, day = py_int ds\<rparr>\<rparr>)"
  proof (cases "strptime_dmY s")
    case (Inl e')
    then have "\<And>t. strptime_dmY s \<noteq> Inr t" by simp
    then have "\<not> (\<exists>ds ms ys. s = ds @ 45 # ms @ 45 # ys \<and> day_text ds \<and> month_text ms
        \<and> year_text ys \<and> check_date_fields (py_int ys) (py_int ms) (py_int ds))"
      using strptime_dmY_iff [of s] by blast
    with Inl show ?thesis
      by (auto simp: Birthday_init_def Birthday_set_value_def)
  next
    case (Inr t)
    then have B: "Birthday_init (Some s) = Inr \<lparr>Birthday_value = Some t, Birthday_Field_value = Some t\<rparr>"
      by (simp add: Birthday_init_def Birthday_set_value_def)
    from Inr obtain ds ms ys where A: "s = ds @ 45 # ms @ 45 # ys" "day_text ds" "month_text ms"
      "year_text ys" "check_date_fields (py_int ys) (py_int ms) (py_int ds)"
      "t = \<lparr>year = py_int ys, month = py_int ms, day = py_int ds\<rparr>"
      using strptime_dmY_iff [of s t] by blast
    show ?thesis
    proof
      assume "Birthday_init (Some s) = Inr b"
      with B have "b = \<lparr>Birthday_value = Some t, Birthday_Field_value = Some t\<rparr>" by simp
      with A show "\<exists>ds ms ys. s = ds @ 45 # ms @ 45 # ys \<and> day_text ds \<and> month_text ms
         \<and> year_text ys \<and> check_date_fields (py_int ys) (py_int ms) (py_int ds)
         \<and> b = \<lparr>Birthday_value = Some \<lparr>year = py_int ys, month = py_int ms, day = py_int ds\<rparr>,
                Birthday_Field_value =
                  Some \<lparr>year = py_int ys, month = py_int ms, day = py_int ds\<rparr>\<rparr>"
        by blast
    next
      assume "\<exists>ds ms ys. s = ds @ 45 # ms @ 45 # ys \<and> day_text ds \<and> month_text ms
         \<and> year_text ys \<and> check_date_fields (py_int ys) (py_int ms) (py_int ds)
         \<and> b = \<lparr>Birthday_value = Some \<lparr>year = py_int ys, month = py_int ms, day = py_int ds\<rparr>,
                Birthday_Field_value =
                  Some \<lparr>year = py_int ys, month = py_int ms, day = py_int ds\<rparr>\<rparr>"
      then obtain ds' ms' ys' where A': "s = ds' @ 45 # ms' @ 45 # ys'" "day_text ds'"
        "month_text ms'" "year_text ys'"
        "check_date_fields (py_int ys') (py_int ms') (py_int ds')"
        "b = \<lparr>Birthday_value = Some \<lparr>year = py_int ys', month = py_int ms', day = py_int ds'\<rparr>,
              Birthday_Field_value =
                Some \<lparr>year = py_int ys', month = py_int ms', day = py_int ds'\<rparr>\<rparr>"
        by blast
      then have "strptime_dmY s = Inr \<lparr>year = py_int ys', month = py_int ms', day = py_int ds'\<rparr>"
        using strptime_dmY_iff [of s "\<lparr>year = py_int ys', month = py_int ms', day = py_int ds'\<rparr>"]
        by blast
      with Inr have "t = \<lparr>year = py_int ys', month = py_int ms', day = py_int ds'\<rparr>" by simp
      with B A'(6) show "Birthday_init (Some s) = Inr b" by simp
    qed
  qed
next
  assume "Birthday_init (Some s) = Inl e"
  then show "e = ValueError"
    by (cases "strptime_dmY s") (simp_all add: Birthday_init_def Birthday_set_value_def)
next
  assume "check_date_fields y m d"
  then have "strptime_dmY (strict_dmY y m d) = Inr \<lparr>year = y, month = m, day = d\<rparr>"
    by (rule strptime_strict)
  then show "Birthday_init (Some (strict_dmY y m d))
          = Inr \<lparr>Birthday_value = Some \<lparr>year = y, month = m, day = d\<rparr>,
                 Birthday_Field_value = Some \<lparr>year = y, month = m, day = d\<rparr>\<rparr>"
    by (simp add: Birthday_init_def Birthday_set_value_def)
next
  show "Birthday_init (Some (ascii ''31-02-2021'')) = Inl ValueError"
    by (simp add: eval_birthday)
qed

theorem C7_birthday_parsing_witness:
  "strict_dmY 1990 3 5 = ascii ''05-03-1990''
   \<and> Birthday_init (Some (ascii ''05-03-1990''))
       = Inr \<lparr>Birthday_value = Some \<lparr>year = 1990, month = 3, day = 5\<rparr>,
              Birthday_Field_value = Some \<lparr>year = 1990, month = 3, day = 5\<rparr>\<rparr>
   \<and> Birthday_init (Some (ascii ''1990-03-05'')) = Inl ValueError"
  using C7_birthday_parsing [of "ascii ''1990-03-05''"
      "\<lparr>Birthday_value = None, Birthday_Field_value = None\<rparr>" ValueError 1990 3 5]
  by (simp add: eval_birthday strict_dmY_def digit_char_def)

text \<open>
  The claim as the specification words it accepts two-digit days and months only.
  The parser takes a day and a month of one digit as well: \<open>5-3-1990\<close>, which has 8
  characters and not the 10 of \<open>DD-MM-YYYY\<close>, is accepted as the 5th of March 1990.
\<close>

theorem C7_one_digit_counterexample:
  "Birthday_init (Some (ascii ''5-3-1990''))
     = Inr \<lparr>Birthday_value = Some \<lparr>year = 1990, month = 3, day = 5\<rparr>,
            Birthday_Field_value = Some \<lparr>year = 1990, month = 3, day = 5\<rparr>\<rparr>
   \<and> length (ascii ''5-3-1990'') \<noteq> 10
   \<and> ascii ''5-3-1990'' \<noteq> strict_dmY 1990 3 5"
  by (simp add: eval_birthday strict_dmY_def digit_char_def)

text \<open>
  Claim C8, as the code has it.  After a successful \<open>edit_phone(old, new)\<close>,
  \<open>find_phone(new)\<close> returns a phone whose value is \<open>new\<close>; the phone list is the
  former one with the value \<open>new\<close> written into the phone at the first index that held
  \<open>old\<close>, and nothing else of the record changes; and \<open>find_phone(old)\<close> returns
  nothing when \<open>old\<close> differs from \<open>new\<close> and the list held \<open>old\<close> once.
\<close>

theorem C8_edit_then_find:
  assumes "edit_phone r old_phone new_phone = (Inr (), r')"
  shows "(\<exists>p. find_phone r' new_phone = Some p \<and> Phone_value p = new_phone)
    \<and> (\<exists>i < length (phones r).
          get_phone_by_number r old_phone = (Some (phones r ! i), Some i)
          \<and> (\<forall>j < i. Phone_value (phones r ! j) \<noteq> old_phone)
          \<and> r' = r\<lparr>phones := (phones r)[i := (phones r ! i)\<lparr>Phone_value := new_phone\<rparr>]\<rparr>)
    \<and> (old_phone \<noteq> new_phone \<and> count_list (map Phone_value (phones r)) old_phone = 1
          \<longrightarrow> find_phone r' old_phone = None)"
proof -
  from edit_phone_ok_shape [OF assms] obtain i where i: "i < length (phones r)"
    "get_phone_by_number r old_phone = (Some (phones r ! i), Some i)"
    "Phone_value (phones r ! i) = old_phone"
    "\<forall>j < i. Phone_value (phones r ! j) \<noteq> old_phone"
    "r' = r\<lparr>phones := (phones r)[i := (phones r ! i)\<lparr>Phone_value := new_phone\<rparr>]\<rparr>"
    by blast
  have V: "map Phone_value (phones r') = (map Phone_value (phones r))[i := new_phone]"
    unfolding i(5) by (simp add: map_update)
  have "new_phone \<in> set (map Phone_value (phones r'))"
    unfolding V using i(1) by (simp add: set_update_memI)
  then have A: "\<exists>p. find_phone r' new_phone = Some p \<and> Phone_value p = new_phone"
    using find_phone_present [of new_phone r'] by simp
  have C: "old_phone \<noteq> new_phone \<and> count_list (map Phone_value (phones r)) old_phone = 1
          \<longrightarrow> find_phone r' old_phone = None"
  proof
    assume H: "old_phone \<noteq> new_phone \<and> count_list (map Phone_value (phones r)) old_phone = 1"
    have "old_phone \<notin> set ((map Phone_value (phones r))[i := new_phone])"
      using count_one_update [of "map Phone_value (phones r)" old_phone i new_phone] H i(1) i(3)
      by auto
    then have "old_phone \<notin> Phone_value ` set (phones r')"
      using V by (metis set_map)
    then show "find_phone r' old_phone = None"
      by (simp add: find_phone_absent)
  qed
  from A i C show ?thesis by blast
qed

theorem C8_edit_then_find_witness:
  "edit_phone ((new_record (ascii ''A''))
          \<lparr>phones := [\<lparr>Phone_value = ascii ''1234567890'',
                       Phone_Field_value = ascii ''1234567890''\<rparr>]\<rparr>)
        (ascii ''1234567890'') (ascii ''0987654321'')
     = (Inr (), (new_record (ascii ''A''))
          \<lparr>phones := [\<lparr>Phone_value = ascii ''0987654321'',
                       Phone_Field_value = ascii ''1234567890''\<rparr>]\<rparr>)
   \<and> find_phone ((new_record (ascii ''A''))
          \<lparr>phones := [\<lparr>Phone_value = ascii ''0987654321'',
                       Phone_Field_value = ascii ''1234567890''\<rparr>]\<rparr>) (ascii ''1234567890'') = None
   \<and> (\<exists>p. find_phone ((new_record (ascii ''A''))
          \<lparr>phones := [\<lparr>Phone_value = ascii ''0987654321'',
                       Phone_Field_value = ascii ''1234567890''\<rparr>]\<rparr>) (ascii ''0987654321'') = Some p
        \<and> Phone_value p = ascii ''0987654321'')"
proof -
  have h: "edit_phone ((new_record (ascii ''A''))
          \<lparr>phones := [\<lparr>Phone_value = ascii ''1234567890'',
                       Phone_Field_value = ascii ''1234567890''\<rparr>]\<rparr>)
        (ascii ''1234567890'') (ascii ''0987654321'')
     = (Inr (), (new_record (ascii ''A''))
          \<lparr>phones := [\<lparr>Phone_value = ascii ''0987654321'',
                       Phone_Field_value = ascii ''1234567890''\<rparr>]\<rparr>)"
    by (simp add: eval_record)
  have c: "ascii ''1234567890'' \<noteq> ascii ''0987654321'' \<and>
      count_list (map Phone_value (phones ((new_record (ascii ''A''))
          \<lparr>phones := [\<lparr>Phone_value = ascii ''1234567890'',
                       Phone_Field_value = ascii ''1234567890''\<rparr>]\<rparr>))) (ascii ''1234567890'') = 1"
    by (simp add: ascii_def)
  from C8_edit_then_find [OF h] c h show ?thesis by blast
qed

text \<open>
  The claim as the specification words it promises that \<open>find_phone(old)\<close> finds
  nothing after the edit.  \<open>add_phone\<close> does not look for duplicates: after adding
  the same number twice, the edit changes the first of the two phones, and
  \<open>find_phone(old)\<close> returns the second.
\<close>

theorem C8_duplicate_counterexample:
  "add_phone ((new_record (ascii ''A''))
          \<lparr>phones := [\<lparr>Phone_value = ascii ''1234567890'',
                       Phone_Field_value = ascii ''1234567890''\<rparr>]\<rparr>) (ascii ''1234567890'')
     = (Inr (), (new_record (ascii ''A''))
          \<lparr>phones := [\<lparr>Phone_value = ascii ''1234567890'',
                       Phone_Field_value = ascii ''1234567890''\<rparr>,
                      \<lparr>Phone_value = ascii ''1234567890'',
                       Phone_Field_value = ascii ''1234567890''\<rparr>]\<rparr>)
   \<and> edit_phone ((new_record (ascii ''A''))
          \<lparr>phones := [\<lparr>Phone_value = ascii ''1234567890'',
                       Phone_Field_value = ascii ''1234567890''\<rparr>,
                      \<lparr>Phone_value = ascii ''1234567890'',
                       Phone_Field_value = ascii ''1234567890''\<rparr>]\<rparr>)
        (ascii ''1234567890'') (ascii ''0987654321'')
     = (Inr (), (new_record (ascii ''A''))
          \<lparr>phones := [\<lparr>Phone_value = ascii ''0987654321'',
                       Phone_Field_value = ascii ''1234567890''\<rparr>,
                      \<lparr>Phone_value = ascii ''1234567890'',
                       Phone_Field_value = ascii ''1234567890''\<rparr>]\<rparr>)
   \<and> find_phone ((new_record (ascii ''A''))
          \<lparr>phones := [\<lparr>Phone_value = ascii ''0987654321'',
                       Phone_Field_value = ascii ''1234567890''\<rparr>,
                      \<lparr>Phone_value = ascii ''1234567890'',
                       Phone_Field_value = ascii ''1234567890''\<rparr>]\<rparr>) (ascii ''1234567890'')
     = Some \<lparr>Phone_value = ascii ''1234567890'', Phone_Field_value = ascii ''1234567890''\<rparr>"
  by (simp add: eval_record)

text \<open>
  Claim C9.  When \<open>add_phone\<close>, \<open>edit_phone\<close> or \<open>add_birthday\<close> raises,
  the record after the call is the record before it, and when \<open>add_record\<close> raises,
  the book after the call is the book before it.
\<close>

theorem C9_failure_atomic:
  "(fst (add_phone r phone_num) = Inl e1 \<longrightarrow> snd (add_phone r phone_num) = r)
   \<and> (fst (edit_phone r old_phone new_phone) = Inl e2 \<longrightarrow>
        snd (edit_phone r old_phone new_phone) = r)
   \<and> (fst (add_birthday r bd) = Inl e3 \<longrightarrow> snd (add_birthday r bd) = r)
   \<and> (fst (add_record data record) = Inl e4 \<longrightarrow> snd (add_record data record) = data)"
proof (intro conjI impI)
  assume "fst (add_phone r phone_num) = Inl e1"
  then show "snd (add_phone r phone_num) = r"
    by (cases "Phone_init phone_num") (simp_all add: add_phone_def)
next
  assume F: "fst (edit_phone r old_phone new_phone) = Inl e2"
  from get_phone_by_number_cases [of r old_phone]
  show "snd (edit_phone r old_phone new_phone) = r"
  proof
    assume "get_phone_by_number r old_phone = (None, None) \<and>
        old_phone \<notin> Phone_value ` set (phones r)"
    then show ?thesis by (simp add: edit_phone_def)
  next
    assume "\<exists>i<length (phones r).
        get_phone_by_number r old_phone = (Some (phones r ! i), Some i) \<and>
        Phone_value (phones r ! i) = old_phone \<and> (\<forall>j<i. Phone_value (phones r ! j) \<noteq> old_phone)"
    then obtain i where i: "get_phone_by_number r old_phone = (Some (phones r ! i), Some i)"
      by blast
    with F show ?thesis
      by (cases "Phone_assign (phones r ! i) new_phone") (simp_all add: edit_phone_def)
  qed
next
  assume "fst (add_birthday r bd) = Inl e3"
  then show "snd (add_birthday r bd) = r"
    by (cases "Birthday_init bd") (simp_all add: add_birthday_def)
next
  assume "fst (add_record data record) = Inl e4"
  then show "snd (add_record data record) = data"
    by (simp add: add_record_def split: if_splits)
qed

theorem C9_failure_atomic_witness:
  "add_phone ((new_record (ascii ''A''))
          \<lparr>phones := [\<lparr>Phone_value = ascii ''1234567890'',
                       Phone_Field_value = ascii ''1234567890''\<rparr>]\<rparr>) (ascii ''12345'')
     = (Inl ValueError, ((new_record (ascii ''A''))
          \<lparr>phones := [\<lparr>Phone_value = ascii ''1234567890'',
                       Phone_Field_value = ascii ''1234567890''\<rparr>]\<rparr>))
   \<and> edit_phone ((new_record (ascii ''A''))
          \<lparr>phones := [\<lparr>Phone_value = ascii ''1234567890'',
                       Phone_Field_value = ascii ''1234567890''\<rparr>]\<rparr>) (ascii ''1234567890'') (ascii ''12345'')
     = (Inl ValueError, ((new_record (ascii ''A''))
          \<lparr>phones := [\<lparr>Phone_value = ascii ''1234567890'',
                       Phone_Field_value = ascii ''1234567890''\<rparr>]\<rparr>))
   \<and> add_birthday ((new_record (ascii ''A''))
          \<lparr>phones := [\<lparr>Phone_value = ascii ''1234567890'',
                       Phone_Field_value = ascii ''1234567890''\<rparr>]\<rparr>) (Some (ascii ''31-02-2021''))
     = (Inl ValueError, ((new_record (ascii ''A''))
          \<lparr>phones := [\<lparr>Phone_value = ascii ''1234567890'',
                       Phone_Field_value = ascii ''1234567890''\<rparr>]\<rparr>))
   \<and> add_record [(ascii ''A'', new_record (ascii ''A''))] ((new_record (ascii ''A''))
          \<lparr>phones := [\<lparr>Phone_value = ascii ''1234567890'',
                       Phone_Field_value = ascii ''1234567890''\<rparr>]\<rparr>)
     = (Inl RecordAlreadyExistsException, [(ascii ''A'', new_record (ascii ''A''))])"
  using C9_failure_atomic [of "((new_record (ascii ''A''))
          \<lparr>phones := [\<lparr>Phone_value = ascii ''1234567890'',
                       Phone_Field_value = ascii ''1234567890''\<rparr>]\<rparr>)" "ascii ''12345''" ValueError
     "ascii ''1234567890''" "ascii ''12345''" ValueError "Some (ascii ''31-02-2021'')" ValueError
     "[(ascii ''A'', new_record (ascii ''A''))]" "((new_record (ascii ''A''))
          \<lparr>phones := [\<lparr>Phone_value = ascii ''1234567890'',
                       Phone_Field_value = ascii ''1234567890''\<rparr>]\<rparr>)"
     RecordAlreadyExistsException]
  by (simp add: eval_record eval_birthday add_birthday_def add_record_def dict_contains_def)

end
